theory Spec2Isabelle
  imports Main "HOL-Library.Word" "HOL-Library.FSet"
begin

unbundle bit_operations_syntax

section \<open>Errors and results\<close>

text \<open>
  Every exception the modelled code can raise is a value. The constructors name the place
  that raises: the three \<open>ValueError\<close>s of the \<open>Version\<close> validators, the
  \<open>ValueError\<close> of \<open>GameVersion.from_robtop_value\<close> (with the offending value), the
  \<open>ValueError\<close> of Python's \<open>int(...)\<close> on a malformed literal (with the literal), the
  \<open>ValueError\<close> of \<open>RecordingItem.from_robtop\<close> when the pattern does not match, the
  \<open>InternalError\<close> of \<open>RecordingItem.from_robtop_match\<close>, and the failures of the binary
  primitives (source exhausted, value outside the field's range, float too large for
  binary32, enumeration code unknown, and the failure a text transcoding may report).
\<close>

datatype error =
    ExpectedMajor
  | ExpectedMinor
  | ExpectedBase
  | InvalidGameVersion int
  | InvalidLiteral string
  | NoMatch
  | InternalError
  | Truncated
  | OutOfRange int
  | InvalidEnumeration int
  | TranscodingError
  | FloatTooLarge

definition bindR :: "error + 'a \<Rightarrow> ('a \<Rightarrow> error + 'b) \<Rightarrow> error + 'b" where
  "bindR r f = (case r of Inl e \<Rightarrow> Inl e | Inr x \<Rightarrow> f x)"

section \<open>Python's \<open>str\<close> and \<open>int\<close> on integers\<close>

definition is_digit :: "char \<Rightarrow> bool" where
  "is_digit c \<longleftrightarrow> 48 \<le> (of_char c :: nat) \<and> (of_char c :: nat) \<le> 57"

definition digit_val :: "char \<Rightarrow> int" where
  "digit_val c = int (of_char c) - 48"

definition digit_char :: "nat \<Rightarrow> char" where
  "digit_char d = char_of (48 + d)"

text \<open>\<open>str(n)\<close> for \<open>n \<ge> 0\<close>: the decimal digits, most significant first, no leading zero.\<close>

fun str_nat :: "nat \<Rightarrow> string" where
  "str_nat n = (if n < 10 then [digit_char n] else str_nat (n div 10) @ [digit_char (n mod 10)])"

declare str_nat.simps [simp del]

text \<open>\<open>str(i)\<close> on a Python integer.\<close>

definition str_int :: "int \<Rightarrow> string" where
  "str_int i = (if i < 0 then CHR ''-'' # str_nat (nat (- i)) else str_nat (nat i))"

text \<open>
  The characters that \<open>int(...)\<close> drops around a literal, among the 256 characters of
  \<open>char\<close>: tab to carriage return, space, 0x85 and 0xA0.
\<close>

definition is_space :: "char \<Rightarrow> bool" where
  "is_space c \<longleftrightarrow> (of_char c :: nat) \<in> {9, 10, 11, 12, 13, 32, 133, 160}"

definition strip :: "string \<Rightarrow> string" where
  "strip s = rev (dropWhile is_space (rev (dropWhile is_space s)))"

text \<open>
  The digits of an integer literal after its first digit: further digits, each optionally
  preceded by one underscore.
\<close>

fun int_body :: "int \<Rightarrow> string \<Rightarrow> int option" where
  "int_body acc [] = Some acc"
| "int_body acc (c # cs) =
     (if is_digit c then int_body (acc * 10 + digit_val c) cs
      else if c = CHR ''_'' then
        (case cs of
           [] \<Rightarrow> None
         | d # ds \<Rightarrow> if is_digit d then int_body (acc * 10 + digit_val d) ds else None)
      else None)"

definition int_unsigned :: "string \<Rightarrow> int option" where
  "int_unsigned s =
     (case s of
        [] \<Rightarrow> None
      | c # cs \<Rightarrow> if is_digit c then int_body (digit_val c) cs else None)"

text \<open>
  \<open>int(string)\<close> in base 10: surrounding white space is dropped, one sign is allowed,
  and anything else that is not a digit sequence raises \<open>ValueError\<close>.
\<close>

definition int_of_str :: "string \<Rightarrow> error + int" where
  "int_of_str s =
     (let t = strip s;
          r = (case t of
                 [] \<Rightarrow> None
               | c # cs \<Rightarrow>
                   if c = CHR ''-'' then map_option uminus (int_unsigned cs)
                   else if c = CHR ''+'' then int_unsigned cs
                   else int_unsigned t)
      in case r of None \<Rightarrow> Inl (InvalidLiteral s) | Some i \<Rightarrow> Inr i)"

text \<open>The value of a digit string read after the accumulated value \<open>acc\<close>.\<close>

definition dec_val :: "int \<Rightarrow> string \<Rightarrow> int" where
  "dec_val acc cs = foldl (\<lambda>a c. a * 10 + digit_val c) acc cs"

section \<open>Versions (\<open>gd/versions.py\<close>)\<close>

definition BASE :: int where
  "BASE = 10"

record Version =
  major :: int
  minor :: int

text \<open>
  The constructor \<open>Version(major, minor)\<close> with its two validators, run in field order:
  \<open>check_major\<close>, then \<open>check_minor\<close>.
\<close>

definition check_major :: "int \<Rightarrow> error + unit" where
  "check_major maj = (if maj < 0 then Inl ExpectedMajor else Inr ())"

definition check_minor :: "int \<Rightarrow> error + unit" where
  "check_minor mnr =
     (if mnr < 0 then Inl ExpectedMinor
      else if mnr \<ge> BASE then Inl ExpectedBase
      else Inr ())"

definition Version_init :: "int \<Rightarrow> int \<Rightarrow> error + Version" where
  "Version_init maj mnr =
     bindR (check_major maj) (\<lambda>_.
     bindR (check_minor mnr) (\<lambda>_.
     Inr \<lparr>major = maj, minor = mnr\<rparr>))"

definition from_value :: "int \<Rightarrow> error + Version" where
  "from_value v = (let maj = v div BASE; mnr = v mod BASE in Version_init maj mnr)"

definition to_value :: "Version \<Rightarrow> int" where
  "to_value self = major self * BASE + minor self"

definition Version_from_robtop :: "string \<Rightarrow> error + Version" where
  "Version_from_robtop string = bindR (int_of_str string) from_value"

definition Version_to_robtop :: "Version \<Rightarrow> string" where
  "Version_to_robtop self = str_int (to_value self)"

text \<open>
  \<open>GameVersion\<close> subclasses \<open>Version\<close> without adding a field, so it has the same
  record; \<open>cls()\<close> is \<open>Version_init 0 0\<close>.
\<close>

type_synonym GameVersion = Version

definition from_robtop_value :: "int \<Rightarrow> error + GameVersion" where
  "from_robtop_value v =
     (if v = 0 then Version_init 0 0
      else if 0 < v \<and> v < 8 then Version_init 1 (v - 1)
      else if v < 10 then Inl (InvalidGameVersion v)
      else if v = 10 then Version_init 1 7
      else if v = 11 then Version_init 1 8
      else from_value v)"

definition to_robtop_value :: "GameVersion \<Rightarrow> int" where
  "to_robtop_value self =
     (if major self = 1 then
        (if minor self = 8 then 11
         else if minor self = 7 then 10
         else if minor self < 7 then minor self + 1
         else to_value self)
      else to_value self)"

definition GameVersion_from_robtop :: "string \<Rightarrow> error + GameVersion" where
  "GameVersion_from_robtop string = bindR (int_of_str string) from_robtop_value"

definition GameVersion_to_robtop :: "GameVersion \<Rightarrow> string" where
  "GameVersion_to_robtop self = str_int (to_robtop_value self)"

section \<open>Progress (\<open>gd/progress.py\<close>)\<close>

text \<open>\<open>str.split(sep)\<close> and \<open>sep.join(parts)\<close> for a one-character separator.\<close>

fun py_split :: "char \<Rightarrow> string \<Rightarrow> string list" where
  "py_split sep [] = [[]]"
| "py_split sep (c # cs) =
     (if c = sep then [] # py_split sep cs
      else (case py_split sep cs of [] \<Rightarrow> [[c]] | w # ws \<Rightarrow> (c # w) # ws))"

fun py_join :: "char \<Rightarrow> string list \<Rightarrow> string" where
  "py_join sep [] = []"
| "py_join sep [s] = s"
| "py_join sep (s # t # ts) = s @ sep # py_join sep (t # ts)"

text \<open>
  Modelled from the spec: \<open>split_progress\<close> and \<open>concat_progress\<close> of
  \<open>gd.models_utils\<close> and the constant \<open>PROGRESS_SEPARATOR\<close> of
  \<open>gd.models_constants\<close> are not among the sources. The spec describes the text form as
  the decimal representations joined by a single configured one-character separator, and
  asks that parsing the text of any sequence, the empty one included, gives the sequence
  back. So the separator is a parameter \<open>sep\<close>, \<open>concat_progress\<close> is \<open>sep.join\<close>,
  and \<open>split_progress\<close> yields the parts between the separators, the empty text, which
  is the text of no part, having none.
\<close>

definition split_progress :: "char \<Rightarrow> string \<Rightarrow> string list" where
  "split_progress sep string = (if string = [] then [] else py_split sep string)"

definition concat_progress :: "char \<Rightarrow> string list \<Rightarrow> string" where
  "concat_progress sep parts = py_join sep parts"

text \<open>\<open>iter(...).map(f).collect(cls)\<close>: the first element on which \<open>f\<close> raises ends the run.\<close>

fun mapR :: "('a \<Rightarrow> error + 'b) \<Rightarrow> 'a list \<Rightarrow> error + 'b list" where
  "mapR f [] = Inr []"
| "mapR f (x # xs) = bindR (f x) (\<lambda>y. bindR (mapR f xs) (\<lambda>ys. Inr (y # ys)))"

text \<open>A \<open>Progress\<close> is a list of Python integers.\<close>

type_synonym Progress = "int list"

definition Progress_from_robtop :: "char \<Rightarrow> string \<Rightarrow> error + Progress" where
  "Progress_from_robtop sep string = mapR int_of_str (split_progress sep string)"

definition Progress_to_robtop :: "char \<Rightarrow> Progress \<Rightarrow> string" where
  "Progress_to_robtop sep self = concat_progress sep (map str_int self)"


section \<open>Recordings (\<open>gd/api/recording.py\<close>)\<close>

subsection \<open>The regular expressions of Python's \<open>re\<close> that the item pattern uses\<close>

datatype group_name = PREVIOUS | TIMESTAMP | NEXT | SECONDARY

text \<open>
  \<open>Digit\<close> is the class \<open>[0-9]\<close>, \<open>Opt r\<close> the greedy \<open>r?\<close>, \<open>Star r\<close> the greedy
  \<open>r*\<close>, \<open>Group n r\<close> the named group \<open>(?P<n>r)\<close>; \<open>(?:r)\<close> groups without capturing
  and is \<open>r\<close> itself.
\<close>

datatype regex =
    Empty
  | Lit char
  | Digit
  | Seq regex regex
  | Opt regex
  | Star regex
  | Group group_name regex

type_synonym groups = "group_name \<Rightarrow> string option"

text \<open>
  The backtracking matcher: \<open>matches r s e\<close> lists, in the order in which the engine tries
  them, the ways \<open>r\<close> can match a prefix of \<open>s\<close>, each as the rest of the input and the
  groups captured so far. A greedy operator tries its operand before trying to skip it. An
  iteration of \<open>Star\<close> that consumes nothing ends the repetition, as it does in \<open>re\<close>.
\<close>

fun matches :: "regex \<Rightarrow> string \<Rightarrow> groups \<Rightarrow> (string \<times> groups) list" where
  "matches Empty s e = [(s, e)]"
| "matches (Lit c) s e = (case s of [] \<Rightarrow> [] | x # xs \<Rightarrow> if x = c then [(xs, e)] else [])"
| "matches Digit s e = (case s of [] \<Rightarrow> [] | x # xs \<Rightarrow> if is_digit x then [(xs, e)] else [])"
| "matches (Seq r1 r2) s e = concat (map (\<lambda>(s', e'). matches r2 s' e') (matches r1 s e))"
| "matches (Opt r) s e = matches r s e @ [(s, e)]"
| "matches (Star r) s e =
     concat (map (\<lambda>(s', e'). if length s' < length s then matches (Star r) s' e' else [])
                 (matches r s e)) @ [(s, e)]"
| "matches (Group n r) s e =
     map (\<lambda>(s', e'). (s', e'(n := Some (take (length s - length s') s)))) (matches r s e)"

text \<open>
  The equation of \<open>Star\<close> unfolds into itself, so it is applied by hand only.
\<close>

declare matches.simps(6) [simp del]

definition no_groups :: groups where
  "no_groups = (\<lambda>_. None)"

text \<open>
  \<open>pattern.fullmatch(string)\<close>: the first way, in the engine's order, that consumes the
  whole string.
\<close>

definition fullmatch :: "regex \<Rightarrow> string \<Rightarrow> groups option" where
  "fullmatch r s = map_option snd (find (\<lambda>(rest, e). rest = []) (matches r s no_groups))"

text \<open>
  \<open>pattern.finditer(string)\<close>: the input is scanned from the left; at each position the
  first way the pattern matches there is taken and the scan goes on after it; where the
  pattern does not match, the scan moves one character on. A match that consumes nothing is
  reported and the scan moves one character on (the item pattern never matches the empty
  string).
\<close>

fun finditer :: "regex \<Rightarrow> string \<Rightarrow> groups list" where
  "finditer r s =
     (case matches r s no_groups of
        [] \<Rightarrow> (case s of [] \<Rightarrow> [] | c # cs \<Rightarrow> finditer r cs)
      | (rest, e) # _ \<Rightarrow>
          if length rest < length s then e # finditer r rest
          else e # (case s of [] \<Rightarrow> [] | c # cs \<Rightarrow> finditer r cs))"

declare finditer.simps [simp del]

subsection \<open>The item pattern\<close>

text \<open>A text taken literally, character by character.\<close>

fun Lits :: "string \<Rightarrow> regex" where
  "Lits [] = Empty"
| "Lits (c # cs) = Seq (Lit c) (Lits cs)"

text \<open>
  The characters that stand for themselves in a pattern compiled with \<open>re.VERBOSE\<close>:
  everything but the metacharacters, white space and \<open>#\<close>.
\<close>

definition regex_literal :: "char \<Rightarrow> bool" where
  "regex_literal c \<longleftrightarrow> c \<notin> set ''.^$*+?{}[]|()#'' \<and> c \<noteq> CHR 0x5C \<and> \<not> is_space c"

text \<open>
  \<open>RECORDING_ITEM_PATTERN\<close>. The constants \<open>ONE\<close> and \<open>RECORDING_SEPARATOR\<close> of
  \<open>gd.models_constants\<close> are not among the sources; they are the parameters \<open>one\<close> (the
  marker token) and \<open>sep\<close> (the one-character separator). The pattern interpolates them
  as pattern text, so they are read literally only when their characters satisfy
  \<open>regex_literal\<close>. \<open>DOT\<close> is escaped by \<open>re.escape\<close> and so is the literal dot; the
  semicolon of the last group is written in the pattern itself.
\<close>

definition RECORDING_ITEM_PATTERN :: "string \<Rightarrow> char \<Rightarrow> regex" where
  "RECORDING_ITEM_PATTERN one sep =
     Seq (Opt (Seq (Group PREVIOUS (Lits one)) (Lit sep)))
    (Seq (Group TIMESTAMP (Seq Digit (Opt (Seq (Lit (CHR ''.'')) (Star Digit)))))
    (Seq (Lit sep)
    (Seq (Opt (Group NEXT (Lits one)))
    (Seq (Lit sep)
         (Opt (Seq (Group SECONDARY Empty) (Lit (CHR '';''))))))))"

subsection \<open>Items and recordings\<close>

text \<open>
  The timestamp is a Python \<open>float\<close>. Floating-point values are not modelled: the type of
  timestamps is a parameter \<open>'f\<close>, and the two conversions the codec uses are parameters
  too, \<open>float_of\<close> for \<open>float(string)\<close> (which can raise) and \<open>float_str\<close> for
  \<open>float_str\<close> of \<open>gd.models_utils\<close>.
\<close>

record 'f RecordingItem =
  timestamp :: 'f
  previous :: bool
  "next" :: bool
  secondary :: bool

text \<open>Modelled from the spec: \<open>EMPTY\<close> of \<open>gd.constants\<close>, the empty string.\<close>

definition EMPTY :: string where
  "EMPTY = []"

text \<open>
  Modelled from the spec: \<open>concat_recording\<close> of \<open>gd.models_utils\<close>, which joins the
  fields of an item with the separator.
\<close>

definition concat_recording :: "char \<Rightarrow> string list \<Rightarrow> string" where
  "concat_recording sep parts = py_join sep parts"

text \<open>
  Modelled from the spec: \<open>int_bool\<close> of \<open>gd.models_utils\<close>, which reads a marker as a
  boolean through its integer value; the empty text is false. The spec fixes only that the
  marker token, when present, means true.
\<close>

definition int_bool :: "string \<Rightarrow> error + bool" where
  "int_bool string =
     (if string = [] then Inr False else bindR (int_of_str string) (\<lambda>i. Inr (i \<noteq> 0)))"

definition to_robtop_iterator :: "('f \<Rightarrow> string) \<Rightarrow> string \<Rightarrow> 'f RecordingItem \<Rightarrow> string list" where
  "to_robtop_iterator float_str one self =
     (if previous self then [one] else []) @
     [float_str (timestamp self)] @
     [if next self then one else EMPTY] @
     [EMPTY] @
     (if secondary self then [EMPTY] else [])"

definition from_robtop_match :: "(string \<Rightarrow> error + 'f) \<Rightarrow> groups \<Rightarrow> error + 'f RecordingItem" where
  "from_robtop_match float_of m =
     bindR (case m PREVIOUS of None \<Rightarrow> Inr False | Some g \<Rightarrow> int_bool g) (\<lambda>prev.
     case m TIMESTAMP of
       None \<Rightarrow> Inl InternalError
     | Some timestamp_group \<Rightarrow>
         bindR (float_of timestamp_group) (\<lambda>ts.
         bindR (case m NEXT of None \<Rightarrow> Inr False | Some g \<Rightarrow> int_bool g) (\<lambda>nxt.
         Inr \<lparr>timestamp = ts, previous = prev, next = nxt,
              secondary = (m SECONDARY \<noteq> None)\<rparr>)))"

definition RecordingItem_from_robtop ::
  "(string \<Rightarrow> error + 'f) \<Rightarrow> string \<Rightarrow> char \<Rightarrow> string \<Rightarrow> error + 'f RecordingItem" where
  "RecordingItem_from_robtop float_of one sep string =
     (case fullmatch (RECORDING_ITEM_PATTERN one sep) string of
        None \<Rightarrow> Inl NoMatch
      | Some m \<Rightarrow> from_robtop_match float_of m)"

definition RecordingItem_to_robtop ::
  "('f \<Rightarrow> string) \<Rightarrow> string \<Rightarrow> char \<Rightarrow> 'f RecordingItem \<Rightarrow> string" where
  "RecordingItem_to_robtop float_str one sep self =
     concat_recording sep (to_robtop_iterator float_str one self)"

text \<open>
  \<open>Recording.iter_robtop\<close> maps \<open>from_robtop_match\<close> over the matches; the constructor of
  the list consumes the iterator, so the first match on which it raises ends the call.
\<close>

definition iter_robtop ::
  "(string \<Rightarrow> error + 'f) \<Rightarrow> string \<Rightarrow> char \<Rightarrow> string \<Rightarrow> error + 'f RecordingItem list" where
  "iter_robtop float_of one sep string =
     mapR (from_robtop_match float_of) (finditer (RECORDING_ITEM_PATTERN one sep) string)"

definition Recording_from_robtop ::
  "(string \<Rightarrow> error + 'f) \<Rightarrow> string \<Rightarrow> char \<Rightarrow> string \<Rightarrow> error + 'f RecordingItem list" where
  "Recording_from_robtop float_of one sep string = iter_robtop float_of one sep string"

text \<open>\<open>collect_robtop\<close> concatenates the items' texts with nothing between them.\<close>

definition collect_robtop ::
  "('f \<Rightarrow> string) \<Rightarrow> string \<Rightarrow> char \<Rightarrow> 'f RecordingItem list \<Rightarrow> string" where
  "collect_robtop float_str one sep recording =
     concat (map (RecordingItem_to_robtop float_str one sep) recording)"

definition Recording_to_robtop ::
  "('f \<Rightarrow> string) \<Rightarrow> string \<Rightarrow> char \<Rightarrow> 'f RecordingItem list \<Rightarrow> string" where
  "Recording_to_robtop float_str one sep self = collect_robtop float_str one sep self"

text \<open>
  The texts the timestamp group can capture: one digit, optionally followed by a dot and
  any number of digits.
\<close>

definition is_timestamp :: "string \<Rightarrow> bool" where
  "is_timestamp ts =
     (case ts of
        [] \<Rightarrow> False
      | d # ds \<Rightarrow> is_digit d \<and>
          (case ds of [] \<Rightarrow> True | p # fs \<Rightarrow> p = CHR ''.'' \<and> list_all is_digit fs))"

text \<open>The first way, in the engine's order, that a pattern matches at the start of a text.\<close>

definition first_way :: "regex \<Rightarrow> string \<Rightarrow> groups \<Rightarrow> (string \<times> groups) option" where
  "first_way r s e = (case matches r s e of [] \<Rightarrow> None | x # _ \<Rightarrow> Some x)"

subsection \<open>An instance of the timestamp conversions\<close>

text \<open>
  To run the recording codec on concrete texts, timestamps can be taken as exact decimals:
  a pair \<open>(m, k)\<close> stands for \<open>m / 10 ^ k\<close>, with no trailing zero among the \<open>k\<close>
  decimals. \<open>decimal_of\<close> reads the texts that the timestamp group can capture, and
  \<open>decimal_str\<close> prints the shortest text that reads back as the same value.
\<close>

type_synonym decimal = "int \<times> nat"

fun normalise :: "decimal \<Rightarrow> decimal" where
  "normalise (m, 0) = (m, 0)"
| "normalise (m, Suc k) = (if m mod 10 = 0 then normalise (m div 10, k) else (m, Suc k))"

definition decimal_of :: "string \<Rightarrow> error + decimal" where
  "decimal_of s =
     (if is_timestamp s
      then Inr (normalise (dec_val 0 (filter is_digit s), length s - 2))
      else Inl (InvalidLiteral s))"

definition decimal_str :: "decimal \<Rightarrow> string" where
  "decimal_str d =
     (case d of (m, k) \<Rightarrow>
        let ds = str_nat (nat m);
            padded = replicate (Suc k - length ds) (CHR ''0'') @ ds;
            n = length padded - k
        in (if m < 0 then ''-'' else []) @
           (if k = 0 then padded else take n padded @ ''.'' @ drop n padded))"

section \<open>Binary primitives\<close>

type_synonym byte = "8 word"

text \<open>
  Modelled from the spec: the enumeration \<open>ByteOrder\<close> of \<open>gd.enums\<close> is not among the
  sources; the spec names the two orders, little and big.
\<close>

datatype ByteOrder = LITTLE | BIG

text \<open>The bytes of a non-negative integer, least significant first, and their value.\<close>

fun to_bytes_le :: "nat \<Rightarrow> int \<Rightarrow> byte list" where
  "to_bytes_le 0 v = []"
| "to_bytes_le (Suc n) v = word_of_int (v mod 256) # to_bytes_le n (v div 256)"

fun from_bytes_le :: "byte list \<Rightarrow> int" where
  "from_bytes_le [] = 0"
| "from_bytes_le (b # bs) = uint b + 256 * from_bytes_le bs"

definition pack :: "nat \<Rightarrow> int \<Rightarrow> ByteOrder \<Rightarrow> byte list" where
  "pack n v order = (case order of LITTLE \<Rightarrow> to_bytes_le n v | BIG \<Rightarrow> rev (to_bytes_le n v))"

definition unpack :: "byte list \<Rightarrow> ByteOrder \<Rightarrow> int" where
  "unpack data order = from_bytes_le (case order of LITTLE \<Rightarrow> data | BIG \<Rightarrow> rev data)"

text \<open>
  Modelled from the spec: \<open>Reader\<close> and \<open>Writer\<close> of \<open>gd.binary_utils\<close> are not among
  the sources. The spec gives fixed-width integers and floats over a forward-only byte
  cursor with an explicit byte order, a read past the end of the source failing with a
  truncation error. A reader is the list of bytes still to be read; a writer is the list of
  bytes written so far. The spec does not say what a write does with a value outside the
  field's range; here it fails, and the properties below only write values in range.
\<close>

definition read_n :: "nat \<Rightarrow> byte list \<Rightarrow> error + (byte list \<times> byte list)" where
  "read_n n bs = (if length bs < n then Inl Truncated else Inr (take n bs, drop n bs))"

definition read_u8 :: "ByteOrder \<Rightarrow> byte list \<Rightarrow> error + (int \<times> byte list)" where
  "read_u8 order bs = bindR (read_n 1 bs) (\<lambda>(data, rest). Inr (unpack data order, rest))"

definition read_u16 :: "ByteOrder \<Rightarrow> byte list \<Rightarrow> error + (int \<times> byte list)" where
  "read_u16 order bs = bindR (read_n 2 bs) (\<lambda>(data, rest). Inr (unpack data order, rest))"

definition write_u8 :: "int \<Rightarrow> ByteOrder \<Rightarrow> byte list \<Rightarrow> error + byte list" where
  "write_u8 v order sink =
     (if 0 \<le> v \<and> v < 2 ^ 8 then Inr (sink @ pack 1 v order) else Inl (OutOfRange v))"

definition write_u16 :: "int \<Rightarrow> ByteOrder \<Rightarrow> byte list \<Rightarrow> error + byte list" where
  "write_u16 v order sink =
     (if 0 \<le> v \<and> v < 2 ^ 16 then Inr (sink @ pack 2 v order) else Inl (OutOfRange v))"

section \<open>Objects (\<open>gd/api/objects.py\<close>)\<close>

subsection \<open>What the object codec takes from outside the sources\<close>

text \<open>
  Python floats are not modelled: the type \<open>'f\<close> of float values is a parameter, with
  \<open>f32_bits\<close> for the binary32 pattern that \<open>write_f32\<close> stores (none when the value is
  too large to pack) and \<open>f32_val\<close> for the float that \<open>read_f32\<close> returns for a
  pattern. The class \<open>HSV\<close> of \<open>gd.api.hsv\<close> and the enumeration \<open>ZLayer\<close> of
  \<open>gd.enums\<close> are not among the sources either: the type \<open>'h\<close> of HSV values is a
  parameter with its two codec functions, which read from and write to the same stream as
  the object, and \<open>ZLayer_values\<close> lists the values of the members of \<open>ZLayer\<close>.
\<close>

record ('f, 'h) externals =
  f32_bits :: "'f \<Rightarrow> 32 word option"
  f32_val :: "32 word \<Rightarrow> 'f"
  HSV_to_binary :: "'h \<Rightarrow> ByteOrder \<Rightarrow> byte list \<Rightarrow> error + byte list"
  HSV_from_binary :: "ByteOrder \<Rightarrow> byte list \<Rightarrow> error + ('h \<times> byte list)"
  ZLayer_values :: "int list"

definition read_f32 ::
  "('f, 'h) externals \<Rightarrow> ByteOrder \<Rightarrow> byte list \<Rightarrow> error + ('f \<times> byte list)" where
  "read_f32 X order bs =
     bindR (read_n 4 bs) (\<lambda>(data, rest). Inr (f32_val X (word_of_int (unpack data order)), rest))"

definition write_f32 ::
  "('f, 'h) externals \<Rightarrow> 'f \<Rightarrow> ByteOrder \<Rightarrow> byte list \<Rightarrow> error + byte list" where
  "write_f32 X v order sink =
     (case f32_bits X v of
        None \<Rightarrow> Inl FloatTooLarge
      | Some w \<Rightarrow> Inr (sink @ pack 4 (uint w) order))"

text \<open>\<open>ZLayer(value)\<close>: the member with that value, or \<open>ValueError\<close>.\<close>

definition ZLayer :: "('f, 'h) externals \<Rightarrow> int \<Rightarrow> error + int" where
  "ZLayer X v = (if v \<in> set (ZLayer_values X) then Inr v else Inl (InvalidEnumeration v))"

text \<open>The float \<open>0.0\<close>, whose binary32 pattern is zero.\<close>

definition float_zero :: "('f, 'h) externals \<Rightarrow> 'f" where
  "float_zero X = f32_val X 0"

subsection \<open>The base class\<close>

definition H_FLIPPED_BIT :: int where "H_FLIPPED_BIT = 0b00000001"
definition V_FLIPPED_BIT :: int where "V_FLIPPED_BIT = 0b00000010"
definition DO_NOT_FADE_BIT :: int where "DO_NOT_FADE_BIT = 0b00000100"
definition DO_NOT_ENTER_BIT :: int where "DO_NOT_ENTER_BIT = 0b00001000"
definition GROUP_PARENT_BIT :: int where "GROUP_PARENT_BIT = 0b00010000"
definition HIGH_DETAIL_BIT :: int where "HIGH_DETAIL_BIT = 0b00100000"
definition GLOW_BIT :: int where "GLOW_BIT = 0b01000000"
definition SPECIAL_CHECKED_BIT :: int where "SPECIAL_CHECKED_BIT = 0b10000000"

definition Z_ORDER_MASK :: int where "Z_ORDER_MASK = 0b0001111111111111"

text \<open>\<open>Z_ORDER_MASK.bit_length()\<close>.\<close>

definition Z_ORDER_BITS :: nat where "Z_ORDER_BITS = 13"

text \<open>
  The fields of \<open>Object\<close>. The attributes \<open>id\<close>, \<open>x\<close> and \<open>y\<close> are the fields
  \<open>obj_id\<close>, \<open>obj_x\<close> and \<open>obj_y\<close>; \<open>z_layer\<close> holds the value of the \<open>ZLayer\<close>
  member. A subclass is a record that extends this one, and a function on
  \<open>Object_scheme\<close> applies to the instances of every subclass, as an inherited method
  does.
\<close>

record ('f, 'h) Object =
  obj_id :: int
  obj_x :: 'f
  obj_y :: 'f
  rotation :: 'f
  h_flipped :: bool
  v_flipped :: bool
  scale :: 'f
  do_not_fade :: bool
  do_not_enter :: bool
  z_layer :: int
  z_order :: int
  base_editor_layer :: int
  additional_editor_layer :: int
  base_color_id :: int
  detail_color_id :: int
  base_color_hsv :: 'h
  detail_color_hsv :: 'h
  groups :: "int fset"
  group_parent :: bool
  high_detail :: bool
  glow :: bool
  special_checked :: bool
  link_id :: int

text \<open>\<open>if flag: value |= BIT\<close>.\<close>

definition set_bit_if :: "bool \<Rightarrow> int \<Rightarrow> int \<Rightarrow> int" where
  "set_bit_if b flag_bit v = (if b then v OR flag_bit else v)"

text \<open>\<open>{reader.read_u16(order) for _ in range(length)}\<close>.\<close>

fun read_groups :: "nat \<Rightarrow> ByteOrder \<Rightarrow> byte list \<Rightarrow> error + (int fset \<times> byte list)" where
  "read_groups 0 order bs = Inr ({||}, bs)"
| "read_groups (Suc n) order bs =
     bindR (read_u16 order bs) (\<lambda>(g, bs).
     bindR (read_groups n order bs) (\<lambda>(gs, bs).
     Inr (finsert g gs, bs)))"

text \<open>\<open>for group in ...: writer.write_u16(group, order)\<close>.\<close>

fun write_each_u16 :: "int list \<Rightarrow> ByteOrder \<Rightarrow> byte list \<Rightarrow> error + byte list" where
  "write_each_u16 [] order sink = Inr sink"
| "write_each_u16 (g # gs) order sink =
     bindR (write_u16 g order sink) (write_each_u16 gs order)"

text \<open>
  \<open>Object.from_binary\<close>. It is a class method: \<open>cls(...)\<close> builds an instance of the
  class it is called on, whose fields beyond those of \<open>Object\<close> take their defaults; the
  parameter \<open>cls\<close> is that default extension.
\<close>

definition Object_from_binary ::
  "('f, 'h) externals \<Rightarrow> 'z \<Rightarrow> ByteOrder \<Rightarrow> byte list \<Rightarrow>
   error + (('f, 'h, 'z) Object_scheme \<times> byte list)" where
  "Object_from_binary X cls order bs =
     bindR (read_u16 order bs) (\<lambda>(id, bs).
     bindR (read_f32 X order bs) (\<lambda>(x, bs).
     bindR (read_f32 X order bs) (\<lambda>(y, bs).
     bindR (read_f32 X order bs) (\<lambda>(rotation, bs).
     bindR (read_f32 X order bs) (\<lambda>(scale, bs).
     bindR (read_u8 order bs) (\<lambda>(value, bs).
     bindR (read_u16 order bs) (\<lambda>(z_layer_order, bs).
     let z_layer_value = drop_bit Z_ORDER_BITS z_layer_order;
         z_order = z_layer_order AND Z_ORDER_MASK
     in
     bindR (ZLayer X z_layer_value) (\<lambda>z_layer.
     bindR (read_u16 order bs) (\<lambda>(base_editor_layer, bs).
     bindR (read_u16 order bs) (\<lambda>(additional_editor_layer, bs).
     bindR (read_u16 order bs) (\<lambda>(base_color_id, bs).
     bindR (read_u16 order bs) (\<lambda>(detail_color_id, bs).
     bindR (HSV_from_binary X order bs) (\<lambda>(base_color_hsv, bs).
     bindR (HSV_from_binary X order bs) (\<lambda>(detail_color_hsv, bs).
     bindR (read_u16 order bs) (\<lambda>(length, bs).
     bindR (read_groups (nat length) order bs) (\<lambda>(groups, bs).
     bindR (read_u16 order bs) (\<lambda>(link_id, bs).
     Inr (\<lparr>obj_id = id, obj_x = x, obj_y = y, rotation = rotation,
           h_flipped = (value AND H_FLIPPED_BIT = H_FLIPPED_BIT),
           v_flipped = (value AND V_FLIPPED_BIT = V_FLIPPED_BIT),
           scale = scale,
           do_not_fade = (value AND DO_NOT_FADE_BIT = DO_NOT_FADE_BIT),
           do_not_enter = (value AND DO_NOT_ENTER_BIT = DO_NOT_ENTER_BIT),
           z_layer = z_layer, z_order = z_order,
           base_editor_layer = base_editor_layer,
           additional_editor_layer = additional_editor_layer,
           base_color_id = base_color_id, detail_color_id = detail_color_id,
           base_color_hsv = base_color_hsv, detail_color_hsv = detail_color_hsv,
           groups = groups,
           group_parent = (value AND GROUP_PARENT_BIT = GROUP_PARENT_BIT),
           high_detail = (value AND HIGH_DETAIL_BIT = HIGH_DETAIL_BIT),
           glow = (value AND GLOW_BIT = GLOW_BIT),
           special_checked = (value AND SPECIAL_CHECKED_BIT = SPECIAL_CHECKED_BIT),
           link_id = link_id, \<dots> = cls\<rparr>, bs))))))))))))))))))"

text \<open>The flag byte that \<open>Object.to_binary\<close> accumulates.\<close>

definition Object_flags :: "('f, 'h, 'z) Object_scheme \<Rightarrow> int" where
  "Object_flags self =
     (let value = 0;
          value = set_bit_if (h_flipped self) H_FLIPPED_BIT value;
          value = set_bit_if (v_flipped self) V_FLIPPED_BIT value;
          value = set_bit_if (do_not_fade self) DO_NOT_FADE_BIT value;
          value = set_bit_if (do_not_enter self) DO_NOT_ENTER_BIT value;
          value = set_bit_if (group_parent self) GROUP_PARENT_BIT value;
          value = set_bit_if (high_detail self) HIGH_DETAIL_BIT value;
          value = set_bit_if (glow self) GLOW_BIT value;
          value = set_bit_if (special_checked self) SPECIAL_CHECKED_BIT value
      in value)"

definition Object_to_binary ::
  "('f, 'h) externals \<Rightarrow> ('f, 'h, 'z) Object_scheme \<Rightarrow> ByteOrder \<Rightarrow> byte list \<Rightarrow>
   error + byte list" where
  "Object_to_binary X self order sink =
     bindR (write_u16 (obj_id self) order sink) (\<lambda>sink.
     bindR (write_f32 X (obj_x self) order sink) (\<lambda>sink.
     bindR (write_f32 X (obj_y self) order sink) (\<lambda>sink.
     bindR (write_f32 X (rotation self) order sink) (\<lambda>sink.
     bindR (write_f32 X (scale self) order sink) (\<lambda>sink.
     bindR (write_u8 (Object_flags self) order sink) (\<lambda>sink.
     let z_layer_order = z_order self AND Z_ORDER_MASK;
         z_layer_order = z_layer_order OR push_bit Z_ORDER_BITS (z_layer self)
     in
     bindR (write_u16 z_layer_order order sink) (\<lambda>sink.
     bindR (write_u16 (base_editor_layer self) order sink) (\<lambda>sink.
     bindR (write_u16 (additional_editor_layer self) order sink) (\<lambda>sink.
     bindR (write_u16 (base_color_id self) order sink) (\<lambda>sink.
     bindR (write_u16 (detail_color_id self) order sink) (\<lambda>sink.
     bindR (HSV_to_binary X (base_color_hsv self) order sink) (\<lambda>sink.
     bindR (HSV_to_binary X (detail_color_hsv self) order sink) (\<lambda>sink.
     bindR (write_u16 (int (fcard (groups self))) order sink) (\<lambda>sink.
     bindR (write_each_u16 (sorted_list_of_fset (groups self)) order sink) (\<lambda>sink.
     write_u16 (link_id self) order sink)))))))))))))))"

subsection \<open>Subclasses that override the codec\<close>

record ('f, 'h) Coin = "('f, 'h) Object" +
  coin_id :: int

definition Coin_from_binary ::
  "('f, 'h) externals \<Rightarrow> 'z \<Rightarrow> ByteOrder \<Rightarrow> byte list \<Rightarrow>
   error + (('f, 'h, 'z) Coin_scheme \<times> byte list)" where
  "Coin_from_binary X cls order bs =
     bindR (Object_from_binary X \<lparr>coin_id = 0, \<dots> = cls\<rparr> order bs) (\<lambda>(coin, bs).
     bindR (read_u8 order bs) (\<lambda>(coin_id, bs).
     Inr (coin\<lparr>coin_id := coin_id\<rparr>, bs)))"

definition Coin_to_binary ::
  "('f, 'h) externals \<Rightarrow> ('f, 'h, 'z) Coin_scheme \<Rightarrow> ByteOrder \<Rightarrow> byte list \<Rightarrow>
   error + byte list" where
  "Coin_to_binary X self order sink =
     bindR (Object_to_binary X self order sink) (\<lambda>sink.
     write_u8 (coin_id self) order sink)"

text \<open>
  \<open>Text\<close>. The transcoding \<open>str.encode(encoding)\<close> and \<open>bytes.decode(encoding)\<close> is
  the parameter \<open>encoding\<close>; both directions can raise.
\<close>

record encoding =
  str_encode :: "string \<Rightarrow> error + byte list"
  str_decode :: "byte list \<Rightarrow> error + string"

record ('f, 'h) Text = "('f, 'h) Object" +
  content :: string

definition Text_from_binary ::
  "('f, 'h) externals \<Rightarrow> 'z \<Rightarrow> ByteOrder \<Rightarrow> encoding \<Rightarrow> byte list \<Rightarrow>
   error + (('f, 'h, 'z) Text_scheme \<times> byte list)" where
  "Text_from_binary X cls order enc bs =
     bindR (Object_from_binary X \<lparr>content = EMPTY, \<dots> = cls\<rparr> order bs) (\<lambda>(text, bs).
     bindR (read_u16 order bs) (\<lambda>(length, bs).
     bindR (read_n (nat length) bs) (\<lambda>(data, bs).
     bindR (str_decode enc data) (\<lambda>content.
     Inr (text\<lparr>content := content\<rparr>, bs)))))"

text \<open>\<open>writer.write(data)\<close> appends the bytes as they are.\<close>

definition Text_to_binary ::
  "('f, 'h) externals \<Rightarrow> ('f, 'h, 'z) Text_scheme \<Rightarrow> ByteOrder \<Rightarrow> encoding \<Rightarrow> byte list \<Rightarrow>
   error + byte list" where
  "Text_to_binary X self order enc sink =
     bindR (Object_to_binary X self order sink) (\<lambda>sink.
     bindR (str_encode enc (content self)) (\<lambda>data.
     bindR (write_u16 (int (length data)) order sink) (\<lambda>sink.
     Inr (sink @ data))))"

definition SMOOTH_BIT :: int where "SMOOTH_BIT = 0b00000001"

record ('f, 'h) Teleport = "('f, 'h) Object" +
  offset :: 'f
  smooth :: bool

definition Teleport_from_binary ::
  "('f, 'h) externals \<Rightarrow> 'z \<Rightarrow> ByteOrder \<Rightarrow> byte list \<Rightarrow>
   error + (('f, 'h, 'z) Teleport_scheme \<times> byte list)" where
  "Teleport_from_binary X cls order bs =
     bindR (Object_from_binary X \<lparr>offset = float_zero X, smooth = False, \<dots> = cls\<rparr> order bs)
       (\<lambda>(teleport, bs).
     bindR (read_f32 X order bs) (\<lambda>(offset, bs).
     bindR (read_u8 order bs) (\<lambda>(value, bs).
     Inr (teleport\<lparr>offset := offset, smooth := (value AND SMOOTH_BIT = SMOOTH_BIT)\<rparr>, bs))))"

definition Teleport_to_binary ::
  "('f, 'h) externals \<Rightarrow> ('f, 'h, 'z) Teleport_scheme \<Rightarrow> ByteOrder \<Rightarrow> byte list \<Rightarrow>
   error + byte list" where
  "Teleport_to_binary X self order sink =
     bindR (Object_to_binary X self order sink) (\<lambda>sink.
     bindR (write_f32 X (offset self) order sink) (\<lambda>sink.
     write_u8 (set_bit_if (smooth self) SMOOTH_BIT 0) order sink))"

definition DYNAMIC_BIT :: int where "DYNAMIC_BIT = 0b1000000000000000"
definition BLOCK_ID_MASK :: int where "BLOCK_ID_MASK = 0b0111111111111111"

record ('f, 'h) CollisionBlock = "('f, 'h) Object" +
  block_id :: int
  dynamic :: bool

definition CollisionBlock_from_binary ::
  "('f, 'h) externals \<Rightarrow> 'z \<Rightarrow> ByteOrder \<Rightarrow> byte list \<Rightarrow>
   error + (('f, 'h, 'z) CollisionBlock_scheme \<times> byte list)" where
  "CollisionBlock_from_binary X cls order bs =
     bindR (Object_from_binary X \<lparr>block_id = 0, dynamic = False, \<dots> = cls\<rparr> order bs)
       (\<lambda>(collision_block, bs).
     bindR (read_u16 order bs) (\<lambda>(value, bs).
     Inr (collision_block\<lparr>block_id := value AND BLOCK_ID_MASK,
                           dynamic := (value AND DYNAMIC_BIT = DYNAMIC_BIT)\<rparr>, bs)))"

definition CollisionBlock_to_binary ::
  "('f, 'h) externals \<Rightarrow> ('f, 'h, 'z) CollisionBlock_scheme \<Rightarrow> ByteOrder \<Rightarrow> byte list \<Rightarrow>
   error + byte list" where
  "CollisionBlock_to_binary X self order sink =
     bindR (Object_to_binary X self order sink) (\<lambda>sink.
     let value = block_id self AND BLOCK_ID_MASK;
         value = set_bit_if (dynamic self) DYNAMIC_BIT value
     in write_u16 value order sink)"

definition TOUCH_TRIGGERED_BIT :: int where "TOUCH_TRIGGERED_BIT = 0b00000001"
definition SPAWN_TRIGGERED_BIT :: int where "SPAWN_TRIGGERED_BIT = 0b00000010"
definition MULTI_TRIGGER_BIT :: int where "MULTI_TRIGGER_BIT = 0b00000100"

record ('f, 'h) Trigger = "('f, 'h) Object" +
  touch_triggered :: bool
  spawn_triggered :: bool
  multi_trigger :: bool

definition Trigger_from_binary ::
  "('f, 'h) externals \<Rightarrow> 'z \<Rightarrow> ByteOrder \<Rightarrow> byte list \<Rightarrow>
   error + (('f, 'h, 'z) Trigger_scheme \<times> byte list)" where
  "Trigger_from_binary X cls order bs =
     bindR (Object_from_binary X
              \<lparr>touch_triggered = False, spawn_triggered = False, multi_trigger = False,
               \<dots> = cls\<rparr> order bs) (\<lambda>(trigger, bs).
     bindR (read_u8 order bs) (\<lambda>(value, bs).
     Inr (trigger\<lparr>touch_triggered := (value AND TOUCH_TRIGGERED_BIT = TOUCH_TRIGGERED_BIT),
                   spawn_triggered := (value AND SPAWN_TRIGGERED_BIT = SPAWN_TRIGGERED_BIT),
                   multi_trigger := (value AND MULTI_TRIGGER_BIT = MULTI_TRIGGER_BIT)\<rparr>, bs)))"

definition Trigger_to_binary ::
  "('f, 'h) externals \<Rightarrow> ('f, 'h, 'z) Trigger_scheme \<Rightarrow> ByteOrder \<Rightarrow> byte list \<Rightarrow>
   error + byte list" where
  "Trigger_to_binary X self order sink =
     bindR (Object_to_binary X self order sink) (\<lambda>sink.
     let value = 0;
         value = set_bit_if (touch_triggered self) TOUCH_TRIGGERED_BIT value;
         value = set_bit_if (spawn_triggered self) SPAWN_TRIGGERED_BIT value;
         value = set_bit_if (multi_trigger self) MULTI_TRIGGER_BIT value
     in write_u8 value order sink)"

text \<open>
  \<open>CollisionTrigger(HasActivateGroup, HasTargetGroup, Trigger)\<close>: the two mixins add the
  fields \<open>activate_group\<close> and \<open>target_group_id\<close> and no method, so \<open>super()\<close> in
  the codec is \<open>Trigger\<close>.
\<close>

definition TRIGGER_ON_EXIT_BIT :: int where "TRIGGER_ON_EXIT_BIT = 0b1000000000000000"

record ('f, 'h) CollisionTrigger = "('f, 'h) Trigger" +
  activate_group :: bool
  target_group_id :: int
  block_a_id :: int
  block_b_id :: int
  trigger_on_exit :: bool

definition CollisionTrigger_from_binary ::
  "('f, 'h) externals \<Rightarrow> 'z \<Rightarrow> ByteOrder \<Rightarrow> byte list \<Rightarrow>
   error + (('f, 'h, 'z) CollisionTrigger_scheme \<times> byte list)" where
  "CollisionTrigger_from_binary X cls order bs =
     bindR (Trigger_from_binary X
              \<lparr>activate_group = False, target_group_id = 0, block_a_id = 0, block_b_id = 0,
               trigger_on_exit = False, \<dots> = cls\<rparr> order bs) (\<lambda>(collision_trigger, bs).
     bindR (read_u16 order bs) (\<lambda>(value, bs).
     let block_a_id = value AND BLOCK_ID_MASK in
     bindR (read_u16 order bs) (\<lambda>(value, bs).
     Inr (collision_trigger\<lparr>block_a_id := block_a_id,
                             block_b_id := value AND BLOCK_ID_MASK,
                             trigger_on_exit :=
                               (value AND TRIGGER_ON_EXIT_BIT = TRIGGER_ON_EXIT_BIT)\<rparr>, bs))))"

definition CollisionTrigger_to_binary ::
  "('f, 'h) externals \<Rightarrow> ('f, 'h, 'z) CollisionTrigger_scheme \<Rightarrow> ByteOrder \<Rightarrow> byte list \<Rightarrow>
   error + byte list" where
  "CollisionTrigger_to_binary X self order sink =
     bindR (Trigger_to_binary X self order sink) (\<lambda>sink.
     bindR (write_u16 (block_a_id self AND BLOCK_ID_MASK) order sink) (\<lambda>sink.
     let value = block_b_id self AND BLOCK_ID_MASK;
         value = set_bit_if (trigger_on_exit self) TRIGGER_ON_EXIT_BIT value
     in write_u16 value order sink))"

subsection \<open>A subclass that does not override the codec\<close>

text \<open>
  \<open>AnimatedObject\<close> declares two fields and no method: \<open>from_binary\<close> and
  \<open>to_binary\<close> on it are those of \<open>Object\<close>, the former building an
  \<open>AnimatedObject\<close> with the defaults \<open>randomize_start = False\<close> and
  \<open>animation_speed = 0.0\<close>.
\<close>

record ('f, 'h) AnimatedObject = "('f, 'h) Object" +
  randomize_start :: bool
  animation_speed :: 'f

definition AnimatedObject_from_binary ::
  "('f, 'h) externals \<Rightarrow> 'z \<Rightarrow> ByteOrder \<Rightarrow> byte list \<Rightarrow>
   error + (('f, 'h, 'z) AnimatedObject_scheme \<times> byte list)" where
  "AnimatedObject_from_binary X cls order bs =
     Object_from_binary X
       \<lparr>randomize_start = False, animation_speed = float_zero X, \<dots> = cls\<rparr> order bs"

definition AnimatedObject_to_binary ::
  "('f, 'h) externals \<Rightarrow> ('f, 'h, 'z) AnimatedObject_scheme \<Rightarrow> ByteOrder \<Rightarrow> byte list \<Rightarrow>
   error + byte list" where
  "AnimatedObject_to_binary X self order sink = Object_to_binary X self order sink"

subsection \<open>Valid field assignments and the wire layout\<close>

text \<open>
  A float field is valid when it has a binary32 pattern that reads back as the same float;
  an HSV field is valid when its own codec writes it, whatever was written before, as bytes
  from which it reads the same value back; an integer field written as \<open>u16\<close> is valid
  within 16 bits.
\<close>

definition u16 :: "int \<Rightarrow> bool" where
  "u16 v \<longleftrightarrow> 0 \<le> v \<and> v < 2 ^ 16"

definition f32_ok :: "('f, 'h) externals \<Rightarrow> 'f \<Rightarrow> bool" where
  "f32_ok X v = (case f32_bits X v of None \<Rightarrow> False | Some w \<Rightarrow> f32_val X w = v)"

definition hsv_roundtrips :: "('f, 'h) externals \<Rightarrow> 'h \<Rightarrow> bool" where
  "hsv_roundtrips X h \<longleftrightarrow>
     (\<forall>order. \<exists>bs. \<forall>sink rest.
        HSV_to_binary X h order sink = Inr (sink @ bs) \<and>
        HSV_from_binary X order (bs @ rest) = Inr (h, rest))"

text \<open>
  The fields of an object other than its groups: the z-order within its 13 bits, the
  z-layer a member of \<open>ZLayer\<close> whose value fits the 3 bits above them.
\<close>

definition valid_Object_head :: "('f, 'h) externals \<Rightarrow> ('f, 'h, 'z) Object_scheme \<Rightarrow> bool" where
  "valid_Object_head X self \<longleftrightarrow>
     u16 (obj_id self) \<and>
     f32_ok X (obj_x self) \<and> f32_ok X (obj_y self) \<and>
     f32_ok X (rotation self) \<and> f32_ok X (scale self) \<and>
     0 \<le> z_order self \<and> z_order self < 2 ^ 13 \<and>
     0 \<le> z_layer self \<and> z_layer self < 2 ^ 3 \<and> z_layer self \<in> set (ZLayer_values X) \<and>
     u16 (base_editor_layer self) \<and> u16 (additional_editor_layer self) \<and>
     u16 (base_color_id self) \<and> u16 (detail_color_id self) \<and>
     hsv_roundtrips X (base_color_hsv self) \<and> hsv_roundtrips X (detail_color_hsv self) \<and>
     u16 (link_id self)"

definition valid_Object :: "('f, 'h) externals \<Rightarrow> ('f, 'h, 'z) Object_scheme \<Rightarrow> bool" where
  "valid_Object X self \<longleftrightarrow>
     valid_Object_head X self \<and>
     (\<forall>g \<in> fset (groups self). u16 g) \<and> fcard (groups self) < 2 ^ 16"

text \<open>The bytes of a float field and of an HSV field.\<close>

definition f32_bytes :: "('f, 'h) externals \<Rightarrow> 'f \<Rightarrow> ByteOrder \<Rightarrow> byte list" where
  "f32_bytes X v order = (case f32_bits X v of None \<Rightarrow> [] | Some w \<Rightarrow> pack 4 (uint w) order)"

definition hsv_bytes :: "('f, 'h) externals \<Rightarrow> 'h \<Rightarrow> ByteOrder \<Rightarrow> byte list" where
  "hsv_bytes X h order = (case HSV_to_binary X h order [] of Inl _ \<Rightarrow> [] | Inr bs \<Rightarrow> bs)"

text \<open>
  The layout of an object on the wire: the fields before the groups, a group section for a
  count and a list of ids, and the link id.
\<close>

definition Object_head_bytes ::
  "('f, 'h) externals \<Rightarrow> ('f, 'h, 'z) Object_scheme \<Rightarrow> ByteOrder \<Rightarrow> byte list" where
  "Object_head_bytes X self order =
     pack 2 (obj_id self) order @
     f32_bytes X (obj_x self) order @ f32_bytes X (obj_y self) order @
     f32_bytes X (rotation self) order @ f32_bytes X (scale self) order @
     pack 1 (Object_flags self) order @
     pack 2 ((z_order self AND Z_ORDER_MASK) OR push_bit Z_ORDER_BITS (z_layer self)) order @
     pack 2 (base_editor_layer self) order @ pack 2 (additional_editor_layer self) order @
     pack 2 (base_color_id self) order @ pack 2 (detail_color_id self) order @
     hsv_bytes X (base_color_hsv self) order @ hsv_bytes X (detail_color_hsv self) order"

definition group_section :: "nat \<Rightarrow> int list \<Rightarrow> ByteOrder \<Rightarrow> byte list" where
  "group_section n ids order = pack 2 (int n) order @ concat (map (\<lambda>g. pack 2 g order) ids)"

definition Object_bytes ::
  "('f, 'h) externals \<Rightarrow> ('f, 'h, 'z) Object_scheme \<Rightarrow> ByteOrder \<Rightarrow> byte list" where
  "Object_bytes X self order =
     Object_head_bytes X self order @
     group_section (fcard (groups self)) (sorted_list_of_fset (groups self)) order @
     pack 2 (link_id self) order"

text \<open>An instance of a subclass seen as an instance of another class with the same base fields.\<close>

definition as_class :: "('f, 'h, 'a) Object_scheme \<Rightarrow> 'z \<Rightarrow> ('f, 'h, 'z) Object_scheme" where
  "as_class self cls = Object.extend (Object.truncate self) cls"

text \<open>The flag byte of a trigger and the packed word of a collision block.\<close>

definition Trigger_flags :: "('f, 'h, 'z) Trigger_scheme \<Rightarrow> int" where
  "Trigger_flags self =
     set_bit_if (multi_trigger self) MULTI_TRIGGER_BIT
       (set_bit_if (spawn_triggered self) SPAWN_TRIGGERED_BIT
         (set_bit_if (touch_triggered self) TOUCH_TRIGGERED_BIT 0))"

definition CollisionBlock_word :: "('f, 'h, 'z) CollisionBlock_scheme \<Rightarrow> int" where
  "CollisionBlock_word self =
     set_bit_if (dynamic self) DYNAMIC_BIT (block_id self AND BLOCK_ID_MASK)"

subsection \<open>An instance of the external parts\<close>

text \<open>
  To run the object codec on concrete objects: floats taken as their binary32 patterns, an
  HSV value of three bytes written as they are, and eight layers with the values 0 to 7.
\<close>

type_synonym hsv3 = "byte \<times> byte \<times> byte"

definition hsv3_to_binary :: "hsv3 \<Rightarrow> ByteOrder \<Rightarrow> byte list \<Rightarrow> error + byte list" where
  "hsv3_to_binary hsv order sink = (case hsv of (h, s, v) \<Rightarrow> Inr (sink @ [h, s, v]))"

definition hsv3_from_binary :: "ByteOrder \<Rightarrow> byte list \<Rightarrow> error + (hsv3 \<times> byte list)" where
  "hsv3_from_binary order bs =
     (case bs of h # s # v # rest \<Rightarrow> Inr ((h, s, v), rest) | _ \<Rightarrow> Inl Truncated)"

definition plain_externals :: "(32 word, hsv3) externals" where
  "plain_externals =
     \<lparr>f32_bits = Some, f32_val = (\<lambda>w. w),
      HSV_to_binary = hsv3_to_binary, HSV_from_binary = hsv3_from_binary,
      ZLayer_values = [0, 1, 2, 3, 4, 5, 6, 7]\<rparr>"

text \<open>
  Concrete objects over this instance. The floats are given by their patterns: 30.0, 45.0,
  1.0 and 5.0 are \<open>0x41F00000\<close>, \<open>0x42340000\<close>, \<open>0x3F800000\<close> and \<open>0x40A00000\<close>.
\<close>

definition example_object :: "(32 word, hsv3) Object" where
  "example_object =
     \<lparr>obj_id = 1, obj_x = 0x41F00000, obj_y = 0x42340000, rotation = 0,
      h_flipped = True, v_flipped = False, scale = 0x3F800000,
      do_not_fade = False, do_not_enter = True, z_layer = 3, z_order = 17,
      base_editor_layer = 0, additional_editor_layer = 2,
      base_color_id = 4, detail_color_id = 5,
      base_color_hsv = (1, 2, 3), detail_color_hsv = (4, 5, 6),
      groups = {|5, 3, 9|},
      group_parent = False, high_detail = False, glow = True, special_checked = False,
      link_id = 7\<rparr>"

definition example_coin :: "(32 word, hsv3) Coin" where
  "example_coin = Object.extend example_object \<lparr>coin_id = 2\<rparr>"

definition latin1 :: encoding where
  "latin1 =
     \<lparr>str_encode = (\<lambda>s. Inr (map (\<lambda>c. of_nat (of_char c)) s)),
      str_decode = (\<lambda>bs. Inr (map (\<lambda>b. char_of (unat b)) bs))\<rparr>"

definition example_text :: "(32 word, hsv3) Text" where
  "example_text = Object.extend example_object \<lparr>content = ''hi''\<rparr>"

definition example_teleport :: "(32 word, hsv3) Teleport" where
  "example_teleport = Object.extend example_object \<lparr>offset = 0x40A00000, smooth = True\<rparr>"

definition example_collision_block :: "(32 word, hsv3) CollisionBlock" where
  "example_collision_block = Object.extend example_object \<lparr>block_id = 7, dynamic = True\<rparr>"

definition example_trigger :: "(32 word, hsv3) Trigger" where
  "example_trigger =
     Object.extend example_object
       \<lparr>touch_triggered = True, spawn_triggered = False, multi_trigger = True\<rparr>"

definition example_animated_object :: "(32 word, hsv3) AnimatedObject" where
  "example_animated_object =
     Object.extend example_object \<lparr>randomize_start = True, animation_speed = 0x3F800000\<rparr>"

definition example_collision_trigger :: "(32 word, hsv3) CollisionTrigger" where
  "example_collision_trigger =
     Object.extend example_object
       \<lparr>touch_triggered = True, spawn_triggered = False, multi_trigger = True,
        \<dots> = \<lparr>activate_group = True, target_group_id = 5, block_a_id = 4, block_b_id = 3,
               trigger_on_exit = True\<rparr>\<rparr>"

section \<open>Properties: integers as text\<close>

lemma is_digit_digit_char: "d < 10 \<Longrightarrow> is_digit (digit_char d)"
  by (simp add: is_digit_def digit_char_def)

lemma digit_val_digit_char: "d < 10 \<Longrightarrow> digit_val (digit_char d) = int d"
  by (simp add: digit_val_def digit_char_def)

lemma str_nat_digits: "\<forall>c \<in> set (str_nat n). is_digit c"
proof (induction n rule: str_nat.induct)
  case (1 n)
  show ?case
  proof (cases "n < 10")
    case True
    then show ?thesis by (simp add: str_nat.simps [of n] is_digit_digit_char)
  next
    case False
    with 1 show ?thesis by (simp add: str_nat.simps [of n] is_digit_digit_char)
  qed
qed

lemma str_nat_nonempty: "str_nat n \<noteq> []"
  by (simp add: str_nat.simps [of n])

lemma int_body_digits: "\<forall>c \<in> set cs. is_digit c \<Longrightarrow> int_body acc cs = Some (dec_val acc cs)"
  by (induction cs arbitrary: acc) (simp_all add: dec_val_def)

lemma int_unsigned_digits:
  "cs \<noteq> [] \<Longrightarrow> \<forall>c \<in> set cs. is_digit c \<Longrightarrow> int_unsigned cs = Some (dec_val 0 cs)"
  by (cases cs) (simp_all add: int_unsigned_def int_body_digits, simp add: dec_val_def)

lemma dec_val_str_nat: "dec_val 0 (str_nat n) = int n"
proof (induction n rule: str_nat.induct)
  case (1 n)
  show ?case
  proof (cases "n < 10")
    case True
    then show ?thesis by (simp add: str_nat.simps [of n] dec_val_def digit_val_digit_char)
  next
    case False
    with 1 have "dec_val 0 (str_nat (n div 10)) = int (n div 10)" by simp
    with False show ?thesis
      by (simp add: str_nat.simps [of n] dec_val_def digit_val_digit_char zdiv_int zmod_int)
  qed
qed

lemma int_unsigned_str_nat: "int_unsigned (str_nat n) = Some (int n)"
  by (simp add: int_unsigned_digits str_nat_nonempty str_nat_digits dec_val_str_nat)

lemma digit_not_space: "is_digit c \<Longrightarrow> \<not> is_space c"
  by (auto simp: is_digit_def is_space_def)

lemma dropWhile_hd_id: "xs \<noteq> [] \<Longrightarrow> \<not> P (hd xs) \<Longrightarrow> dropWhile P xs = xs"
  by (cases xs) simp_all

lemma strip_id: "s \<noteq> [] \<Longrightarrow> \<not> is_space (hd s) \<Longrightarrow> \<not> is_space (last s) \<Longrightarrow> strip s = s"
  by (simp add: strip_def dropWhile_hd_id hd_rev)

lemma last_str_nat_digit: "is_digit (last (str_nat n))"
  using str_nat_digits [of n] str_nat_nonempty [of n] last_in_set by blast

lemma hd_str_nat_digit: "is_digit (hd (str_nat n))"
  using str_nat_digits [of n] str_nat_nonempty [of n] hd_in_set by blast

lemma minus_not_space: "\<not> is_space (CHR ''-'')"
  by (simp add: is_space_def)

lemma digit_not_sign: "is_digit c \<Longrightarrow> c \<noteq> CHR ''-'' \<and> c \<noteq> CHR ''+''"
  by (auto simp: is_digit_def)

lemma int_of_str_str_int: "int_of_str (str_int i) = Inr i"
proof (cases "i < 0")
  case True
  have "strip (CHR ''-'' # str_nat (nat (- i))) = CHR ''-'' # str_nat (nat (- i))"
    by (rule strip_id) (simp_all add: minus_not_space str_nat_nonempty last_str_nat_digit digit_not_space)
  with True show ?thesis
    by (simp add: int_of_str_def str_int_def int_unsigned_str_nat)
next
  case False
  have s: "strip (str_nat (nat i)) = str_nat (nat i)"
    by (rule strip_id) (simp_all add: str_nat_nonempty last_str_nat_digit hd_str_nat_digit digit_not_space)
  obtain c cs where cs: "str_nat (nat i) = c # cs"
    using str_nat_nonempty [of "nat i"] by (cases "str_nat (nat i)") auto
  then have "is_digit c" using hd_str_nat_digit [of "nat i"] by simp
  then have "c \<noteq> CHR ''-'' \<and> c \<noteq> CHR ''+''" by (rule digit_not_sign)
  moreover have "int_unsigned (c # cs) = Some i"
    using int_unsigned_str_nat [of "nat i"] cs False by simp
  ultimately show ?thesis using False s cs
    by (simp add: int_of_str_def str_int_def)
qed

lemma py_split_nonempty: "py_split sep s \<noteq> []"
  by (induction s) (auto split: list.splits)

lemma py_split_no_sep: "sep \<notin> set s \<Longrightarrow> py_split sep s = [s]"
  by (induction s) auto

lemma py_split_append:
  "sep \<notin> set s \<Longrightarrow> py_split sep (s @ sep # t) = s # py_split sep t"
  by (induction s) (auto split: list.splits)

lemma py_split_join:
  "parts \<noteq> [] \<Longrightarrow> \<forall>s \<in> set parts. sep \<notin> set s \<Longrightarrow> py_split sep (py_join sep parts) = parts"
  by (induction sep parts rule: py_join.induct) (simp_all add: py_split_no_sep py_split_append)

lemma str_int_no_sep:
  "\<not> is_digit sep \<Longrightarrow> sep \<noteq> CHR ''-'' \<Longrightarrow> sep \<notin> set (str_int i)"
  using str_nat_digits by (auto simp: str_int_def)

lemma mapR_int_of_str: "mapR int_of_str (map str_int p) = Inr p"
  by (induction p) (simp_all add: int_of_str_str_int bindR_def)


section \<open>Properties: versions\<close>

lemma Version_init_ok:
  "0 \<le> a \<Longrightarrow> 0 \<le> b \<Longrightarrow> b < 10 \<Longrightarrow> Version_init a b = Inr \<lparr>major = a, minor = b\<rparr>"
  by (simp add: Version_init_def check_major_def check_minor_def bindR_def BASE_def)

lemma from_value_ok:
  "0 \<le> v \<Longrightarrow> from_value v = Inr \<lparr>major = v div 10, minor = v mod 10\<rparr>"
  by (simp add: from_value_def BASE_def Version_init_ok pos_imp_zdiv_nonneg_iff)

text \<open>
  Claim C7. For every pair \<open>(a, b)\<close> with \<open>a \<ge> 0\<close> and \<open>0 \<le> b < 10\<close>, constructing
  \<open>Version(a, b)\<close> succeeds and its \<open>to_value()\<close> is \<open>a * 10 + b\<close>; and for every integer
  \<open>v \<ge> 0\<close>, \<open>Version.from_value(v)\<close> succeeds and its \<open>to_value()\<close> is \<open>v\<close>.
\<close>

theorem version_value_roundtrip:
  "(0 \<le> a \<and> 0 \<le> b \<and> b < 10 \<longrightarrow>
      (\<exists>ver. Version_init a b = Inr ver \<and> to_value ver = a * 10 + b)) \<and>
   (0 \<le> v \<longrightarrow> (\<exists>ver. from_value v = Inr ver \<and> to_value ver = v))"
  by (simp add: Version_init_ok from_value_ok to_value_def BASE_def)

theorem version_value_roundtrip_witness:
  "(0::int) \<le> 2 \<and> (0::int) \<le> 1 \<and> (1::int) < 10 \<and>
   (\<exists>ver. Version_init 2 1 = Inr ver \<and> to_value ver = 2 * 10 + 1) \<and>
   (0::int) \<le> 35 \<and> (\<exists>ver. from_value 35 = Inr ver \<and> to_value ver = 35)"
  using version_value_roundtrip [of 2 1 35] by simp

text \<open>
  Claim C3, as stated, fails: the raw value 12 is accepted by \<open>from_robtop_value\<close> (it is
  \<open>\<ge> 10\<close>) and decodes to \<open>GameVersion(1, 2)\<close>, which \<open>to_robtop_value\<close> encodes as 3.
\<close>

theorem game_version_roundtrip_counterexample:
  "from_robtop_value 12 = Inr \<lparr>major = 1, minor = 2\<rparr> \<and>
   to_robtop_value \<lparr>major = 1, minor = 2\<rparr> \<noteq> 12"
  by (simp add: from_robtop_value_def to_robtop_value_def from_value_def Version_init_def
      check_major_def check_minor_def bindR_def BASE_def)

text \<open>
  Claim C3, amended. Every raw value that is 0, in \<open>[1, 7]\<close> or \<open>\<ge> 10\<close> is accepted by
  \<open>from_robtop_value\<close>, and \<open>to_robtop_value\<close> of the decoded \<open>GameVersion\<close> returns the
  original raw value exactly when the value is not in \<open>[12, 18]\<close>: the round trip holds for
  0, 1..7, 10, 11 and every value \<open>\<ge> 19\<close>, and fails for 12..18.
\<close>

theorem game_version_roundtrip:
  assumes "v = 0 \<or> (1 \<le> v \<and> v \<le> 7) \<or> 10 \<le> v"
  shows "\<exists>g. from_robtop_value v = Inr g \<and> (to_robtop_value g = v \<longleftrightarrow> \<not> (12 \<le> v \<and> v \<le> 18))"
proof -
  consider "v = 0" | "1 \<le> v \<and> v \<le> 7" | "v = 10" | "v = 11" | "12 \<le> v \<and> v \<le> 18" | "19 \<le> v"
    using assms by linarith
  then show ?thesis
  proof cases
    case 5
    then have "v div 10 = 1" and "2 \<le> v mod 10" and "v mod 10 \<le> 8" by presburger+
    with 5 show ?thesis
      by (auto simp add: from_robtop_value_def from_value_ok to_robtop_value_def to_value_def BASE_def)
  next
    case 6
    then have "v div 10 = 1 \<longrightarrow> v mod 10 = 9" by presburger
    with 6 show ?thesis
      by (auto simp add: from_robtop_value_def from_value_ok to_robtop_value_def to_value_def BASE_def)
  qed (simp_all add: from_robtop_value_def Version_init_ok to_robtop_value_def to_value_def BASE_def)
qed

theorem game_version_roundtrip_witness:
  "((21::int) = 0 \<or> (1 \<le> (21::int) \<and> (21::int) \<le> 7) \<or> (10::int) \<le> 21) \<and>
   from_robtop_value 21 = Inr \<lparr>major = 2, minor = 1\<rparr> \<and>
   to_robtop_value \<lparr>major = 2, minor = 1\<rparr> = 21"
  using game_version_roundtrip [of 21]
  by (simp add: from_robtop_value_def from_value_ok)

text \<open>
  Claim C4. The historical table of \<open>GameVersion\<close>: \<open>from_robtop("11")\<close> is
  \<open>GameVersion(1, 8)\<close>, \<open>to_robtop(GameVersion(1, 8))\<close> is \<open>"11"\<close>, \<open>from_robtop("10")\<close>
  is \<open>GameVersion(1, 7)\<close>, \<open>from_robtop("0")\<close> is \<open>GameVersion(0, 0)\<close>, and
  \<open>from_robtop("8")\<close> and \<open>from_robtop("9")\<close> both fail with the invalid-game-version
  error.
\<close>

theorem game_version_table:
  "GameVersion_from_robtop ''11'' = Inr \<lparr>major = 1, minor = 8\<rparr> \<and>
   GameVersion_to_robtop \<lparr>major = 1, minor = 8\<rparr> = ''11'' \<and>
   GameVersion_from_robtop ''10'' = Inr \<lparr>major = 1, minor = 7\<rparr> \<and>
   GameVersion_from_robtop ''0'' = Inr \<lparr>major = 0, minor = 0\<rparr> \<and>
   GameVersion_from_robtop ''8'' = Inl (InvalidGameVersion 8) \<and>
   GameVersion_from_robtop ''9'' = Inl (InvalidGameVersion 9)"
  by code_simp

section \<open>Properties: progress\<close>

lemma str_int_nonempty: "str_int i \<noteq> []"
  by (simp add: str_int_def str_nat_nonempty)

lemma py_join_nonempty:
  "parts \<noteq> [] \<Longrightarrow> \<forall>s \<in> set parts. s \<noteq> [] \<Longrightarrow> py_join sep parts \<noteq> []"
  by (induction sep parts rule: py_join.induct) simp_all

text \<open>
  Claim C6. For every sequence \<open>p\<close> of integers (in particular of signed 8-bit integers),
  the empty sequence included, and a separator that is neither a digit nor the minus sign,
  parsing the RobTop text of \<open>Progress(p)\<close> yields \<open>p\<close> again, order and duplicates
  preserved.
\<close>

theorem progress_roundtrip:
  assumes "\<not> is_digit sep" and "sep \<noteq> CHR ''-''"
  shows "Progress_from_robtop sep (Progress_to_robtop sep p) = Inr p"
proof (cases "p = []")
  case True
  then show ?thesis
    by (simp add: Progress_from_robtop_def Progress_to_robtop_def split_progress_def
        concat_progress_def)
next
  case False
  have "py_split sep (py_join sep (map str_int p)) = map str_int p"
    using assms False by (intro py_split_join) (auto simp: str_int_no_sep)
  moreover have "py_join sep (map str_int p) \<noteq> []"
    using False by (intro py_join_nonempty) (auto simp: str_int_nonempty)
  ultimately show ?thesis
    by (simp add: Progress_from_robtop_def Progress_to_robtop_def split_progress_def
        concat_progress_def mapR_int_of_str)
qed

theorem progress_roundtrip_witness:
  "\<not> is_digit (CHR '','') \<and> CHR '','' \<noteq> CHR ''-'' \<and>
   Progress_to_robtop (CHR '','') [0, -128, 127, 0] = ''0,-128,127,0'' \<and>
   Progress_from_robtop (CHR '','') ''0,-128,127,0'' = Inr [0, -128, 127, 0] \<and>
   Progress_to_robtop (CHR '','') [] = [] \<and>
   Progress_from_robtop (CHR '','') [] = Inr []"
proof -
  have d: "\<not> is_digit (CHR '','')" by (simp add: is_digit_def)
  have t: "Progress_to_robtop (CHR '','') [0, -128, 127, 0] = ''0,-128,127,0''" by code_simp
  have e: "Progress_to_robtop (CHR '','') [] = []" by code_simp
  show ?thesis
    using progress_roundtrip [of "CHR '',''" "[0, -128, 127, 0]"]
      progress_roundtrip [of "CHR '',''" "[]"] d t e
    by simp
qed

section \<open>Properties: recordings\<close>

lemma matches_Star_Digit_Nil: "matches (Star Digit) [] e = [([], e)]"
  by (subst matches.simps(6)) simp

lemma matches_Star_Digit_Cons:
  "matches (Star Digit) (x # xs) e =
     (if is_digit x then matches (Star Digit) xs e else []) @ [(x # xs, e)]"
  by (subst matches.simps(6)) simp


lemma matches_Lits:
  "matches (Lits w) s e = (if take (length w) s = w then [(drop (length w) s, e)] else [])"
proof (induction w arbitrary: s)
  case Nil
  then show ?case by simp
next
  case (Cons c cs)
  then show ?case by (cases s) auto
qed

lemma matches_Lits_other:
  "w \<noteq> [] \<Longrightarrow> c \<noteq> hd w \<Longrightarrow> matches (Lits w) (c # rest) e = []"
  by (cases w) auto

lemma first_Lits: "first_way (Lits w) (w @ s) e = Some (s, e)"
  by (simp add: first_way_def matches_Lits)

lemma first_Lit: "first_way (Lit c) (c # s) e = Some (s, e)"
  by (simp add: first_way_def)

lemma first_Digit: "is_digit c \<Longrightarrow> first_way Digit (c # s) e = Some (s, e)"
  by (simp add: first_way_def)

lemma first_Seq:
  "first_way r1 s e = Some (s1, e1) \<Longrightarrow> first_way r2 s1 e1 = Some y \<Longrightarrow>
   first_way (Seq r1 r2) s e = Some y"
  by (auto simp: first_way_def split: list.splits)

lemma first_Opt_take: "first_way r s e = Some y \<Longrightarrow> first_way (Opt r) s e = Some y"
  by (auto simp: first_way_def split: list.splits)

lemma first_Opt_skip: "matches r s e = [] \<Longrightarrow> first_way (Opt r) s e = Some (s, e)"
  by (simp add: first_way_def)

lemma first_Group:
  "first_way r s e = Some (s', e') \<Longrightarrow>
   first_way (Group n r) s e = Some (s', e'(n := Some (take (length s - length s') s)))"
  by (auto simp: first_way_def split: list.splits)

lemma first_Star_Digit:
  "is_digit c \<Longrightarrow> first_way (Star Digit) s e = Some y \<Longrightarrow>
   first_way (Star Digit) (c # s) e = Some y"
  by (auto simp: first_way_def matches_Star_Digit_Cons split: list.splits)

lemma first_Star_Digit_stop:
  "\<not> is_digit c \<Longrightarrow> first_way (Star Digit) (c # s) e = Some (c # s, e)"
  by (simp add: first_way_def matches_Star_Digit_Cons)

lemma fullmatch_first: "first_way r s no_groups = Some ([], e) \<Longrightarrow> fullmatch r s = Some e"
  by (auto simp: first_way_def fullmatch_def split: list.splits)

lemma item_fullmatch:
  assumes one: "one \<noteq> []" and sep_one: "sep \<notin> set one" and sep: "\<not> is_digit sep"
  shows "fullmatch (RECORDING_ITEM_PATTERN one sep) (one @ sep # ''1.5'' @ [sep, sep]) =
     Some (no_groups(PREVIOUS := Some one, TIMESTAMP := Some ''1.5''))"
proof -
  define e1 where "e1 = no_groups(PREVIOUS := Some one)"
  define e2 where "e2 = e1(TIMESTAMP := Some ''1.5'')"
  have d1: "is_digit (CHR ''1'')" and d5: "is_digit (CHR ''5'')"
    by (simp_all add: is_digit_def)
  have hd_one: "sep \<noteq> hd one" using one sep_one by (cases one) auto
  have prev: "first_way (Opt (Seq (Group PREVIOUS (Lits one)) (Lit sep)))
                (one @ sep # ''1.5'' @ [sep, sep]) no_groups = Some (''1.5'' @ [sep, sep], e1)"
  proof -
    have "first_way (Group PREVIOUS (Lits one)) (one @ sep # ''1.5'' @ [sep, sep]) no_groups =
            Some (sep # ''1.5'' @ [sep, sep], e1)"
      using first_Group [OF first_Lits, of PREVIOUS one "sep # ''1.5'' @ [sep, sep]" no_groups]
      by (simp add: e1_def)
    then show ?thesis
      by (intro first_Opt_take first_Seq [OF _ first_Lit])
  qed
  have frac: "first_way (Opt (Seq (Lit (CHR ''.'')) (Star Digit))) (''.5'' @ [sep, sep]) e1 =
                Some ([sep, sep], e1)"
    using first_Star_Digit [OF d5 first_Star_Digit_stop [OF sep], of "[sep]" e1]
    by (intro first_Opt_take) (auto intro: first_Seq [OF first_Lit])
  have ts: "first_way (Group TIMESTAMP (Seq Digit (Opt (Seq (Lit (CHR ''.'')) (Star Digit)))))
              (''1.5'' @ [sep, sep]) e1 = Some ([sep, sep], e2)"
    using first_Group [OF first_Seq [OF first_Digit [OF d1] frac], of TIMESTAMP]
    by (simp add: e2_def)
  have nxt: "first_way (Opt (Group NEXT (Lits one))) [sep] e2 = Some ([sep], e2)"
    by (rule first_Opt_skip) (simp add: matches_Lits_other one hd_one)
  have sec: "first_way (Opt (Seq (Group SECONDARY Empty) (Lit (CHR '';'')))) [] e2 = Some ([], e2)"
    by (rule first_Opt_skip) simp
  have "first_way (RECORDING_ITEM_PATTERN one sep) (one @ sep # ''1.5'' @ [sep, sep]) no_groups =
          Some ([], e2)"
    unfolding RECORDING_ITEM_PATTERN_def
    by (rule first_Seq [OF prev first_Seq [OF ts first_Seq [OF first_Lit
          first_Seq [OF nxt first_Seq [OF first_Lit sec]]]]])
  then show ?thesis
    by (simp add: fullmatch_first e2_def e1_def)
qed

text \<open>
  Claim C8. \<open>RecordingItem(timestamp=1.5, previous=true, next=false, secondary=false)\<close>
  serializes to the previous-marker token, a separator, the text \<open>1.5\<close>, a separator and
  one more separator (no next marker, no trailing secondary token), and parsing that exact
  text yields the same item. The marker \<open>one\<close> and the separator \<open>sep\<close> are any
  literal, non-empty token and any literal non-digit character outside it, with
  \<open>int_bool\<close> true on the marker; \<open>t\<close> is the float that prints as \<open>1.5\<close> and that
  \<open>float\<close> reads from \<open>1.5\<close>.
\<close>

theorem recording_item_scenario:
  assumes "one \<noteq> []" and "\<forall>c \<in> set one. regex_literal c" and "sep \<notin> set one"
    and "regex_literal sep" and "\<not> is_digit sep"
    and "int_bool one = Inr True"
    and "float_str t = ''1.5''" and "float_of ''1.5'' = Inr t"
  shows "RecordingItem_to_robtop float_str one sep
           \<lparr>timestamp = t, previous = True, next = False, secondary = False\<rparr> =
           one @ [sep] @ ''1.5'' @ [sep] @ [sep] \<and>
         RecordingItem_from_robtop float_of one sep (one @ [sep] @ ''1.5'' @ [sep] @ [sep]) =
           Inr \<lparr>timestamp = t, previous = True, next = False, secondary = False\<rparr>"
proof
  show "RecordingItem_to_robtop float_str one sep
           \<lparr>timestamp = t, previous = True, next = False, secondary = False\<rparr> =
           one @ [sep] @ ''1.5'' @ [sep] @ [sep]"
    using assms(7)
    by (simp add: RecordingItem_to_robtop_def to_robtop_iterator_def concat_recording_def EMPTY_def)
next
  have "fullmatch (RECORDING_ITEM_PATTERN one sep) (one @ [sep] @ ''1.5'' @ [sep] @ [sep]) =
     Some (no_groups(PREVIOUS := Some one, TIMESTAMP := Some ''1.5''))"
    using item_fullmatch [OF assms(1) assms(3) assms(5)] by simp
  then show "RecordingItem_from_robtop float_of one sep (one @ [sep] @ ''1.5'' @ [sep] @ [sep]) =
           Inr \<lparr>timestamp = t, previous = True, next = False, secondary = False\<rparr>"
    using assms(6) assms(8)
    by (simp add: RecordingItem_from_robtop_def from_robtop_match_def bindR_def no_groups_def)
qed

theorem recording_item_scenario_witness:
  "''1'' \<noteq> [] \<and> regex_literal (CHR ''1'') \<and> CHR '';'' \<notin> set ''1'' \<and>
   regex_literal (CHR '';'') \<and> \<not> is_digit (CHR '';'') \<and> int_bool ''1'' = Inr True \<and>
   decimal_str (15, 1) = ''1.5'' \<and> decimal_of ''1.5'' = Inr (15, 1) \<and>
   RecordingItem_to_robtop decimal_str ''1'' (CHR '';'')
     \<lparr>timestamp = (15, 1), previous = True, next = False, secondary = False\<rparr> = ''1;1.5;;'' \<and>
   RecordingItem_from_robtop decimal_of ''1'' (CHR '';'') ''1;1.5;;'' =
     Inr \<lparr>timestamp = (15, 1), previous = True, next = False, secondary = False\<rparr>"
proof -
  have h0: "regex_literal (CHR ''1'')" by code_simp
  have h1: "\<forall>c \<in> set ''1''. regex_literal c" using h0 by simp
  have h2: "regex_literal (CHR '';'')" by code_simp
  have h3: "\<not> is_digit (CHR '';'')" by code_simp
  have h4: "int_bool ''1'' = Inr True" by code_simp
  have h5: "decimal_str (15, 1) = ''1.5''" by code_simp
  have h6: "decimal_of ''1.5'' = Inr (15, 1)" by code_simp
  show ?thesis
    using recording_item_scenario [of "''1''" "CHR '';''" decimal_str "(15, 1)" decimal_of]
      h0 h1 h2 h3 h4 h5 h6
    by simp
qed


lemma in_matches_Seq:
  "(s', e') \<in> set (matches (Seq r1 r2) s e) \<longleftrightarrow>
   (\<exists>s1 e1. (s1, e1) \<in> set (matches r1 s e) \<and> (s', e') \<in> set (matches r2 s1 e1))"
  by auto

lemma in_matches_Lit: "(s', e') \<in> set (matches (Lit c) s e) \<Longrightarrow> e' = e \<and> s = c # s'"
  by (cases s) (auto split: if_splits)

lemma in_matches_Digit:
  "(s', e') \<in> set (matches Digit s e) \<Longrightarrow> e' = e \<and> (\<exists>d. is_digit d \<and> s = d # s')"
  by (cases s) (auto split: if_splits)

lemma in_matches_Star_Digit:
  "(s', e') \<in> set (matches (Star Digit) s e) \<Longrightarrow>
   e' = e \<and> (\<exists>ds. s = ds @ s' \<and> list_all is_digit ds)"
proof (induction s)
  case Nil
  then show ?case by (simp add: matches_Star_Digit_Nil)
next
  case (Cons x xs)
  show ?case
  proof (cases "(s', e') = (x # xs, e)")
    case True
    then show ?thesis by simp
  next
    case False
    with Cons.prems have x: "is_digit x" and "(s', e') \<in> set (matches (Star Digit) xs e)"
      by (auto simp: matches_Star_Digit_Cons split: if_splits)
    with Cons.IH obtain ds where "e' = e" "xs = ds @ s'" "list_all is_digit ds" by blast
    with x have "x # xs = (x # ds) @ s' \<and> list_all is_digit (x # ds)" by simp
    with \<open>e' = e\<close> show ?thesis by blast
  qed
qed

lemma in_matches_timestamp:
  assumes "(s', e') \<in> set (matches
     (Group TIMESTAMP (Seq Digit (Opt (Seq (Lit (CHR ''.'')) (Star Digit))))) s e)"
  shows "\<exists>w. is_timestamp w \<and> e' = e(TIMESTAMP := Some w)"
proof -
  from assms obtain e0 where
    body: "(s', e0) \<in> set (matches (Seq Digit (Opt (Seq (Lit (CHR ''.'')) (Star Digit)))) s e)"
    and e': "e' = e0(TIMESTAMP := Some (take (length s - length s') s))"
    by (auto simp del: matches.simps(4))
  from body obtain s1 e1 where
    d: "(s1, e1) \<in> set (matches Digit s e)" and
    o: "(s', e0) \<in> set (matches (Opt (Seq (Lit (CHR ''.'')) (Star Digit))) s1 e1)"
    unfolding in_matches_Seq by blast
  from d obtain c where c: "is_digit c" "s = c # s1" "e1 = e"
    using in_matches_Digit by blast
  from o consider (skip) "s' = s1" "e0 = e1"
    | (frac) "(s', e0) \<in> set (matches (Seq (Lit (CHR ''.'')) (Star Digit)) s1 e1)"
    by (auto simp del: matches.simps(4))
  then show ?thesis
  proof cases
    case skip
    with c e' have "e' = e(TIMESTAMP := Some [c])" by simp
    moreover have "is_timestamp [c]" using c by (simp add: is_timestamp_def)
    ultimately show ?thesis by blast
  next
    case frac
    then obtain s2 e2 where
      l: "(s2, e2) \<in> set (matches (Lit (CHR ''.'')) s1 e1)" and
      st: "(s', e0) \<in> set (matches (Star Digit) s2 e2)"
      unfolding in_matches_Seq by blast
    from l have l': "e2 = e1" "s1 = CHR ''.'' # s2" using in_matches_Lit by blast+
    from st obtain ds where ds: "e0 = e2" "s2 = ds @ s'" "list_all is_digit ds"
      using in_matches_Star_Digit by blast
    have "take (length s - length s') s = c # CHR ''.'' # ds"
      using c l' ds by simp
    moreover have "is_timestamp (c # CHR ''.'' # ds)"
      using c ds by (simp add: is_timestamp_def)
    ultimately show ?thesis using e' ds l' c by auto
  qed
qed

lemma take_length_drop: "take (length w) s = w \<Longrightarrow> take (length s - length (drop (length w) s)) s = w"
  by (metis append_take_drop_id length_append add_diff_cancel_right')

lemma in_matches_group_Lits:
  "(s', e') \<in> set (matches (Group n (Lits w)) s e) \<Longrightarrow> e' = e(n := Some w)"
  using take_length_drop [of w s] by (auto simp: matches_Lits split: if_splits)

lemma in_matches_previous:
  assumes "(s', e') \<in> set (matches (Opt (Seq (Group PREVIOUS (Lits one)) (Lit sep))) s e)"
  shows "e' = e \<or> e' = e(PREVIOUS := Some one)"
proof -
  from assms consider "e' = e"
    | "(s', e') \<in> set (matches (Seq (Group PREVIOUS (Lits one)) (Lit sep)) s e)"
    by (auto simp del: matches.simps(4))
  then show ?thesis
  proof cases
    case 2
    then obtain s1 e1 where "(s1, e1) \<in> set (matches (Group PREVIOUS (Lits one)) s e)"
      and "(s', e') \<in> set (matches (Lit sep) s1 e1)"
      unfolding in_matches_Seq by blast
    then show ?thesis using in_matches_group_Lits in_matches_Lit by blast
  qed simp
qed

lemma in_matches_next:
  assumes "(s', e') \<in> set (matches (Opt (Group NEXT (Lits one))) s e)"
  shows "e' = e \<or> e' = e(NEXT := Some one)"
proof -
  from assms consider "e' = e" | "(s', e') \<in> set (matches (Group NEXT (Lits one)) s e)"
    by (auto simp del: matches.simps(7))
  then show ?thesis using in_matches_group_Lits by cases blast+
qed

lemma in_matches_secondary:
  assumes "(s', e') \<in> set (matches (Opt (Seq (Group SECONDARY Empty) (Lit c))) s e)"
  shows "e' = e \<or> e' = e(SECONDARY := Some [])"
  using assms by (auto split: list.splits if_splits)

lemma pattern_groups:
  assumes "(s', m) \<in> set (matches (RECORDING_ITEM_PATTERN one sep) s no_groups)"
  shows "(m PREVIOUS = None \<or> m PREVIOUS = Some one) \<and>
         (\<exists>w. is_timestamp w \<and> m TIMESTAMP = Some w) \<and>
         (m NEXT = None \<or> m NEXT = Some one)"
proof -
  from assms obtain s1 e1 s2 e2 s3 e3 s4 e4 s5 e5 where
    1: "(s1, e1) \<in> set (matches (Opt (Seq (Group PREVIOUS (Lits one)) (Lit sep))) s no_groups)" and
    2: "(s2, e2) \<in> set (matches
          (Group TIMESTAMP (Seq Digit (Opt (Seq (Lit (CHR ''.'')) (Star Digit))))) s1 e1)" and
    3: "(s3, e3) \<in> set (matches (Lit sep) s2 e2)" and
    4: "(s4, e4) \<in> set (matches (Opt (Group NEXT (Lits one))) s3 e3)" and
    5: "(s5, e5) \<in> set (matches (Lit sep) s4 e4)" and
    6: "(s', m) \<in> set (matches (Opt (Seq (Group SECONDARY Empty) (Lit (CHR '';'')))) s5 e5)"
    unfolding RECORDING_ITEM_PATTERN_def in_matches_Seq by blast
  from 1 have p: "e1 = no_groups \<or> e1 = no_groups(PREVIOUS := Some one)"
    by (rule in_matches_previous)
  from 2 obtain w where w: "is_timestamp w" "e2 = e1(TIMESTAMP := Some w)"
    using in_matches_timestamp by blast
  from 3 have "e3 = e2" using in_matches_Lit by blast
  moreover from 4 have "e4 = e3 \<or> e4 = e3(NEXT := Some one)" by (rule in_matches_next)
  moreover from 5 have "e5 = e4" using in_matches_Lit by blast
  moreover from 6 have "m = e5 \<or> m = e5(SECONDARY := Some [])" by (rule in_matches_secondary)
  ultimately show ?thesis using p w by (auto simp: no_groups_def)
qed

lemma finditer_from_matches:
  "m \<in> set (finditer r s) \<Longrightarrow> \<exists>s0 s'. (s', m) \<in> set (matches r s0 no_groups)"
proof (induction r s rule: finditer.induct)
  case (1 r s)
  show ?case
  proof (cases "matches r s no_groups")
    case Nil
    from "1.prems" have "m \<in> set (case s of [] \<Rightarrow> [] | c # cs \<Rightarrow> finditer r cs)"
      by (subst (asm) finditer.simps) (simp add: Nil)
    then obtain c cs where "s = c # cs" "m \<in> set (finditer r cs)"
      by (cases s) auto
    with "1.IH"(1) Nil show ?thesis by blast
  next
    case (Cons x xs)
    obtain rest e where x: "x = (rest, e)" by (cases x)
    from "1.prems" have mem: "m \<in> set (if length rest < length s then e # finditer r rest
        else e # (case s of [] \<Rightarrow> [] | c # cs \<Rightarrow> finditer r cs))"
      by (subst (asm) finditer.simps) (simp add: Cons x)
    show ?thesis
    proof (cases "m = e")
      case True
      with Cons x have "(rest, m) \<in> set (matches r s no_groups)" by simp
      then show ?thesis by blast
    next
      case False
      show ?thesis
      proof (cases "length rest < length s")
        case True
        with mem False have "m \<in> set (finditer r rest)" by simp
        with "1.IH"(2) Cons x True show ?thesis by blast
      next
        case shorter: False
        with mem False obtain c cs where "s = c # cs" "m \<in> set (finditer r cs)"
          by (cases s) auto
        with "1.IH"(3) Cons x shorter show ?thesis by blast
      qed
    qed
  qed
qed

lemma mapR_total:
  "\<forall>x \<in> set xs. \<exists>y. f x = Inr y \<Longrightarrow>
   \<exists>ys. mapR f xs = Inr ys \<and> list_all2 (\<lambda>x y. f x = Inr y) xs ys"
proof (induction xs)
  case Nil
  then show ?case by simp
next
  case (Cons x xs)
  then obtain y ys where "f x = Inr y" "mapR f xs = Inr ys" "list_all2 (\<lambda>x y. f x = Inr y) xs ys"
    by auto
  then show ?case by (simp add: bindR_def)
qed

lemma from_robtop_match_total:
  assumes "\<forall>ts. is_timestamp ts \<longrightarrow> (\<exists>t. float_of ts = Inr t)"
    and "\<exists>b. int_bool one = Inr b"
    and "(s', m) \<in> set (matches (RECORDING_ITEM_PATTERN one sep) s no_groups)"
  shows "\<exists>item. from_robtop_match float_of m = Inr item"
proof -
  from assms(2) obtain b where b: "int_bool one = Inr b" by blast
  from pattern_groups [OF assms(3)] obtain w where
    w: "is_timestamp w" "m TIMESTAMP = Some w" and
    p: "m PREVIOUS = None \<or> m PREVIOUS = Some one" and
    n: "m NEXT = None \<or> m NEXT = Some one" by blast
  from assms(1) w obtain t where t: "float_of w = Inr t" by blast
  from p n show ?thesis
    using w t b by (auto simp: from_robtop_match_def bindR_def)
qed

lemma pattern_no_match_at:
  assumes "one \<noteq> []" and "\<not> is_digit c" and "c \<noteq> hd one"
  shows "matches (RECORDING_ITEM_PATTERN one sep) (c # cs) e = []"
  using assms by (simp add: RECORDING_ITEM_PATTERN_def matches_Lits_other)

lemma finditer_skip:
  assumes "one \<noteq> []" and "\<forall>c \<in> set junk. \<not> is_digit c \<and> c \<noteq> hd one"
  shows "finditer (RECORDING_ITEM_PATTERN one sep) (junk @ s) =
         finditer (RECORDING_ITEM_PATTERN one sep) s"
  using assms(2)
proof (induction junk)
  case Nil
  then show ?case by simp
next
  case (Cons c cs)
  then have "matches (RECORDING_ITEM_PATTERN one sep) (c # cs @ s) no_groups = []"
    using assms(1) by (simp add: pattern_no_match_at)
  then have "finditer (RECORDING_ITEM_PATTERN one sep) ((c # cs) @ s) =
             finditer (RECORDING_ITEM_PATTERN one sep) (cs @ s)"
    by (subst finditer.simps) simp
  with Cons show ?case by simp
qed

text \<open>
  Claim C9. \<open>Recording.from_robtop\<close> is total: for every input text it returns a
  recording and raises nothing, given that \<open>float\<close> reads every text the timestamp group
  can capture and that \<open>int_bool\<close> reads the marker token. The result holds exactly the
  items of the matches that \<open>finditer\<close> reports (the left-to-right, non-overlapping
  matches of the item pattern), in order; a text with no match yields the empty recording;
  and a stretch of input in which no match can start (no digit, no first character of the
  marker) is skipped without changing the result.
\<close>

theorem recording_from_robtop_total:
  assumes "\<forall>ts. is_timestamp ts \<longrightarrow> (\<exists>t. float_of ts = Inr t)"
    and "\<exists>b. int_bool one = Inr b"
  shows "\<exists>items. Recording_from_robtop float_of one sep s = Inr items \<and>
           list_all2 (\<lambda>m item. from_robtop_match float_of m = Inr item)
             (finditer (RECORDING_ITEM_PATTERN one sep) s) items \<and>
           (finditer (RECORDING_ITEM_PATTERN one sep) s = [] \<longrightarrow> items = []) \<and>
           (one \<noteq> [] \<and> (\<forall>c \<in> set junk. \<not> is_digit c \<and> c \<noteq> hd one) \<longrightarrow>
              Recording_from_robtop float_of one sep (junk @ s) = Inr items)"
proof -
  have "\<forall>m \<in> set (finditer (RECORDING_ITEM_PATTERN one sep) s).
          \<exists>item. from_robtop_match float_of m = Inr item"
    using finditer_from_matches from_robtop_match_total [OF assms] by blast
  from mapR_total [OF this] obtain items where
    items: "mapR (from_robtop_match float_of) (finditer (RECORDING_ITEM_PATTERN one sep) s) = Inr items"
    and all2: "list_all2 (\<lambda>m item. from_robtop_match float_of m = Inr item)
             (finditer (RECORDING_ITEM_PATTERN one sep) s) items"
    by blast
  have "Recording_from_robtop float_of one sep s = Inr items"
    using items by (simp add: Recording_from_robtop_def iter_robtop_def)
  moreover have "finditer (RECORDING_ITEM_PATTERN one sep) s = [] \<longrightarrow> items = []"
    using all2 by auto
  moreover have "one \<noteq> [] \<and> (\<forall>c \<in> set junk. \<not> is_digit c \<and> c \<noteq> hd one) \<longrightarrow>
              Recording_from_robtop float_of one sep (junk @ s) = Inr items"
    using items by (simp add: Recording_from_robtop_def iter_robtop_def finditer_skip)
  ultimately show ?thesis using all2 by blast
qed

theorem recording_from_robtop_total_witness:
  "int_bool ''1'' = Inr True \<and>
   Recording_from_robtop decimal_of ''1'' (CHR '';'') ''1;1.5;;0;1;;'' =
     Inr [\<lparr>timestamp = (15, 1), previous = True, next = False, secondary = False\<rparr>,
          \<lparr>timestamp = (0, 0), previous = False, next = True, secondary = True\<rparr>] \<and>
   Recording_from_robtop decimal_of ''1'' (CHR '';'') (''xy'' @ ''1;1.5;;0;1;;'') =
     Inr [\<lparr>timestamp = (15, 1), previous = True, next = False, secondary = False\<rparr>,
          \<lparr>timestamp = (0, 0), previous = False, next = True, secondary = True\<rparr>] \<and>
   finditer (RECORDING_ITEM_PATTERN ''1'' (CHR '';'')) ''no items here'' = [] \<and>
   Recording_from_robtop decimal_of ''1'' (CHR '';'') ''no items here'' = Inr []"
proof -
  have h1: "\<forall>ts. is_timestamp ts \<longrightarrow> (\<exists>t. decimal_of ts = Inr t)"
    by (simp add: decimal_of_def)
  have h0: "int_bool ''1'' = Inr True" by code_simp
  then have h2: "\<exists>b. int_bool ''1'' = Inr b" by blast
  have h3: "\<forall>c \<in> set ''xy''. \<not> is_digit c \<and> c \<noteq> hd ''1''" by code_simp
  have t1: "Recording_from_robtop decimal_of ''1'' (CHR '';'') ''1;1.5;;0;1;;'' =
    Inr [\<lparr>timestamp = (15, 1), previous = True, next = False, secondary = False\<rparr>,
         \<lparr>timestamp = (0, 0), previous = False, next = True, secondary = True\<rparr>]"
    by code_simp
  have t2: "finditer (RECORDING_ITEM_PATTERN ''1'' (CHR '';'')) ''no items here'' = []"
    by code_simp
  from recording_from_robtop_total [OF h1 h2, of "CHR '';''" "''1;1.5;;0;1;;''" "''xy''"] t1 h3
  have a: "Recording_from_robtop decimal_of ''1'' (CHR '';'') (''xy'' @ ''1;1.5;;0;1;;'') =
     Inr [\<lparr>timestamp = (15, 1), previous = True, next = False, secondary = False\<rparr>,
          \<lparr>timestamp = (0, 0), previous = False, next = True, secondary = True\<rparr>]"
    by auto
  from recording_from_robtop_total [OF h1 h2, of "CHR '';''" "''no items here''" "[]"] t2
  have b: "Recording_from_robtop decimal_of ''1'' (CHR '';'') ''no items here'' = Inr []"
    by auto
  show ?thesis using h0 t1 t2 a b by blast
qed

section \<open>Properties: the binary primitives\<close>

lemma length_to_bytes_le: "length (to_bytes_le n v) = n"
  by (induction n arbitrary: v) simp_all

lemma from_to_bytes_le:
  "0 \<le> v \<Longrightarrow> v < 256 ^ n \<Longrightarrow> from_bytes_le (to_bytes_le n v) = v"
proof (induction n arbitrary: v)
  case 0
  then show ?case by simp
next
  case (Suc n)
  from Suc.prems have "v < 256 * 256 ^ n" by simp
  with Suc.prems have "0 \<le> v div 256" and "v div 256 < 256 ^ n"
    by arith+
  with Suc.IH have "from_bytes_le (to_bytes_le n (v div 256)) = v div 256" by simp
  moreover have "uint (word_of_int (v mod 256) :: byte) = v mod 256"
    by (simp add: uint_word_of_int take_bit_eq_mod)
  ultimately show ?case by simp
qed

lemma length_pack: "length (pack n v order) = n"
  by (cases order) (simp_all add: pack_def length_to_bytes_le)

lemma unpack_pack: "0 \<le> v \<Longrightarrow> v < 256 ^ n \<Longrightarrow> unpack (pack n v order) order = v"
  by (cases order) (simp_all add: pack_def unpack_def from_to_bytes_le)

lemma read_n_append: "length xs = n \<Longrightarrow> read_n n (xs @ rest) = Inr (xs, rest)"
  by (simp add: read_n_def)

lemma read_u8_pack:
  "0 \<le> v \<Longrightarrow> v < 2 ^ 8 \<Longrightarrow> read_u8 order (pack 1 v order @ rest) = Inr (v, rest)"
  by (simp add: read_u8_def read_n_append length_pack bindR_def unpack_pack)

lemma read_u16_pack:
  "0 \<le> v \<Longrightarrow> v < 2 ^ 16 \<Longrightarrow> read_u16 order (pack 2 v order @ rest) = Inr (v, rest)"
  by (simp add: read_u16_def read_n_append length_pack bindR_def unpack_pack)

lemma read_f32_pack:
  "read_f32 X order (pack 4 (uint (w :: 32 word)) order @ rest) = Inr (f32_val X w, rest)"
proof -
  have "uint w < 256 ^ 4" using uint_lt2p [of w] by simp
  then have "unpack (pack 4 (uint w) order) order = uint w"
    by (intro unpack_pack) simp_all
  then show ?thesis
    by (simp add: read_f32_def read_n_append length_pack bindR_def)
qed

lemma write_u8_ok:
  "0 \<le> v \<Longrightarrow> v < 2 ^ 8 \<Longrightarrow> write_u8 v order sink = Inr (sink @ pack 1 v order)"
  by (simp add: write_u8_def)

lemma write_u16_ok:
  "0 \<le> v \<Longrightarrow> v < 2 ^ 16 \<Longrightarrow> write_u16 v order sink = Inr (sink @ pack 2 v order)"
  by (simp add: write_u16_def)

lemma from_bytes_le_range: "0 \<le> from_bytes_le bs \<and> from_bytes_le bs < 256 ^ length bs"
proof (induction bs)
  case Nil
  then show ?case by simp
next
  case (Cons b bs)
  have "0 \<le> uint b" "uint b < 256" using uint_lt2p [of b] by simp_all
  with Cons show ?case by simp
qed

lemma unpack_range: "0 \<le> unpack data order \<and> unpack data order < 256 ^ length data"
  using from_bytes_le_range [of data] from_bytes_le_range [of "rev data"]
  by (cases order) (simp_all add: unpack_def)

lemma read_u16_range:
  "read_u16 order bs = Inr (v, rest) \<Longrightarrow> 0 \<le> v \<and> v < 2 ^ 16 \<and> length bs = length rest + 2"
  using unpack_range [of "take 2 bs" order]
  by (auto simp: read_u16_def read_n_def bindR_def min_def split: if_splits)

lemma read_u8_range:
  "read_u8 order bs = Inr (v, rest) \<Longrightarrow> 0 \<le> v \<and> v < 2 ^ 8"
  using unpack_range [of "take 1 bs" order]
  by (cases bs) (auto simp: read_u8_def read_n_def bindR_def split: if_splits)

lemma Object_flags_range: "0 \<le> Object_flags self \<and> Object_flags self < 2 ^ 8"
  by (simp add: Object_flags_def set_bit_if_def H_FLIPPED_BIT_def V_FLIPPED_BIT_def
      DO_NOT_FADE_BIT_def DO_NOT_ENTER_BIT_def GROUP_PARENT_BIT_def HIGH_DETAIL_BIT_def
      GLOW_BIT_def SPECIAL_CHECKED_BIT_def)

section \<open>Properties: objects\<close>

lemma and_exp_eq_iff_bit: "(v AND 2 ^ k = 2 ^ k) = bit (v :: int) k"
proof
  assume "v AND 2 ^ k = 2 ^ k"
  then have "bit (v AND 2 ^ k) k = bit (2 ^ k :: int) k" by simp
  then show "bit v k" by (simp add: bit_and_iff bit_exp_iff)
next
  assume "bit v k"
  then show "v AND 2 ^ k = 2 ^ k"
    by (intro bit_eqI) (auto simp: bit_and_iff bit_exp_iff)
qed

lemma bit_set_bit_if: "bit (set_bit_if b (2 ^ k) v) n \<longleftrightarrow> bit (v :: int) n \<or> (b \<and> n = k)"
  by (auto simp: set_bit_if_def bit_or_iff bit_exp_iff)

lemma Object_flags_exp:
  "Object_flags self =
     set_bit_if (special_checked self) (2 ^ 7) (set_bit_if (glow self) (2 ^ 6)
    (set_bit_if (high_detail self) (2 ^ 5) (set_bit_if (group_parent self) (2 ^ 4)
    (set_bit_if (do_not_enter self) (2 ^ 3) (set_bit_if (do_not_fade self) (2 ^ 2)
    (set_bit_if (v_flipped self) (2 ^ 1) (set_bit_if (h_flipped self) (2 ^ 0) 0)))))))"
  by (simp add: Object_flags_def H_FLIPPED_BIT_def V_FLIPPED_BIT_def
      DO_NOT_FADE_BIT_def DO_NOT_ENTER_BIT_def GROUP_PARENT_BIT_def HIGH_DETAIL_BIT_def
      GLOW_BIT_def SPECIAL_CHECKED_BIT_def)

lemma bit_Object_flags:
  "bit (Object_flags self) 0 = h_flipped self"
  "bit (Object_flags self) (Suc 0) = v_flipped self"
  "bit (Object_flags self) 2 = do_not_fade self"
  "bit (Object_flags self) 3 = do_not_enter self"
  "bit (Object_flags self) 4 = group_parent self"
  "bit (Object_flags self) 5 = high_detail self"
  "bit (Object_flags self) 6 = glow self"
  "bit (Object_flags self) 7 = special_checked self"
  unfolding Object_flags_exp by (simp_all only: bit_set_bit_if bit_0_eq, simp_all)

lemma Object_flags_decode:
  "(Object_flags self AND H_FLIPPED_BIT = H_FLIPPED_BIT) = h_flipped self"
  "(Object_flags self AND V_FLIPPED_BIT = V_FLIPPED_BIT) = v_flipped self"
  "(Object_flags self AND DO_NOT_FADE_BIT = DO_NOT_FADE_BIT) = do_not_fade self"
  "(Object_flags self AND DO_NOT_ENTER_BIT = DO_NOT_ENTER_BIT) = do_not_enter self"
  "(Object_flags self AND GROUP_PARENT_BIT = GROUP_PARENT_BIT) = group_parent self"
  "(Object_flags self AND HIGH_DETAIL_BIT = HIGH_DETAIL_BIT) = high_detail self"
  "(Object_flags self AND GLOW_BIT = GLOW_BIT) = glow self"
  "(Object_flags self AND SPECIAL_CHECKED_BIT = SPECIAL_CHECKED_BIT) = special_checked self"
  using and_exp_eq_iff_bit [of "Object_flags self" 0] and_exp_eq_iff_bit [of "Object_flags self" 1]
    and_exp_eq_iff_bit [of "Object_flags self" 2] and_exp_eq_iff_bit [of "Object_flags self" 3]
    and_exp_eq_iff_bit [of "Object_flags self" 4] and_exp_eq_iff_bit [of "Object_flags self" 5]
    and_exp_eq_iff_bit [of "Object_flags self" 6] and_exp_eq_iff_bit [of "Object_flags self" 7]
  by (simp_all add: bit_Object_flags H_FLIPPED_BIT_def V_FLIPPED_BIT_def
      DO_NOT_FADE_BIT_def DO_NOT_ENTER_BIT_def GROUP_PARENT_BIT_def HIGH_DETAIL_BIT_def
      GLOW_BIT_def SPECIAL_CHECKED_BIT_def)

lemma z_pack:
  assumes "0 \<le> zo" "zo < 2 ^ 13" "0 \<le> zl" "zl < 2 ^ 3"
  shows "0 \<le> (zo AND Z_ORDER_MASK) OR push_bit Z_ORDER_BITS (zl :: int)"
    and "(zo AND Z_ORDER_MASK) OR push_bit Z_ORDER_BITS zl < 2 ^ 16"
    and "drop_bit Z_ORDER_BITS ((zo AND Z_ORDER_MASK) OR push_bit Z_ORDER_BITS zl) = zl"
    and "((zo AND Z_ORDER_MASK) OR push_bit Z_ORDER_BITS zl) AND Z_ORDER_MASK = zo"
proof -
  have m: "Z_ORDER_MASK = mask 13" by (simp add: Z_ORDER_MASK_def mask_eq_exp_minus_1)
  have zo: "zo AND Z_ORDER_MASK = zo"
    using assms(1,2) by (simp add: m flip: take_bit_eq_mask) (simp add: take_bit_int_eq_self)
  have d: "drop_bit 13 zo = 0" using assms(1,2) by (simp add: drop_bit_eq_div)
  show "0 \<le> (zo AND Z_ORDER_MASK) OR push_bit Z_ORDER_BITS zl"
    using assms by (simp add: zo)
  have "push_bit 13 zl < 2 ^ 16" using assms(3,4) by (simp add: push_bit_eq_mult)
  then show "(zo AND Z_ORDER_MASK) OR push_bit Z_ORDER_BITS zl < 2 ^ 16"
    using assms OR_upper [of zo 16 "push_bit 13 zl"] by (simp add: zo Z_ORDER_BITS_def)
  show "drop_bit Z_ORDER_BITS ((zo AND Z_ORDER_MASK) OR push_bit Z_ORDER_BITS zl) = zl"
    by (simp add: zo Z_ORDER_BITS_def d drop_bit_push_bit)
  have "take_bit 13 (zo OR push_bit 13 zl) = zo"
    using assms(1,2) by (simp add: take_bit_or take_bit_push_bit take_bit_int_eq_self)
  then show "((zo AND Z_ORDER_MASK) OR push_bit Z_ORDER_BITS zl) AND Z_ORDER_MASK = zo"
    by (simp add: zo Z_ORDER_BITS_def m flip: take_bit_eq_mask)
qed

lemma write_each_u16_ok:
  "\<forall>g \<in> set gs. u16 g \<Longrightarrow>
   write_each_u16 gs order sink = Inr (sink @ concat (map (\<lambda>g. pack 2 g order) gs))"
  by (induction gs arbitrary: sink) (simp_all add: u16_def write_u16_ok bindR_def)

lemma read_groups_ok:
  "\<forall>g \<in> set gs. u16 g \<Longrightarrow>
   read_groups (length gs) order (concat (map (\<lambda>g. pack 2 g order) gs) @ rest) =
     Inr (fset_of_list gs, rest)"
  by (induction gs) (simp_all add: u16_def read_u16_pack bindR_def)

lemma length_sorted_list_of_fset: "length (sorted_list_of_fset S) = fcard S"
  by (simp add: sorted_list_of_fset.rep_eq fcard.rep_eq)

lemma write_f32_ok:
  "f32_ok X v \<Longrightarrow> write_f32 X v order sink = Inr (sink @ f32_bytes X v order)"
  by (auto simp: f32_ok_def write_f32_def f32_bytes_def split: option.splits)

lemma read_f32_bytes:
  "f32_ok X v \<Longrightarrow> read_f32 X order (f32_bytes X v order @ rest) = Inr (v, rest)"
  by (auto simp: f32_ok_def f32_bytes_def read_f32_pack split: option.splits)

lemma HSV_to_binary_ok:
  assumes "hsv_roundtrips X h"
  shows "HSV_to_binary X h order sink = Inr (sink @ hsv_bytes X h order)"
proof -
  from assms obtain bs where
    bs: "\<And>sink rest. HSV_to_binary X h order sink = Inr (sink @ bs)"
    unfolding hsv_roundtrips_def by blast
  from bs [of "[]"] have "hsv_bytes X h order = bs" by (simp add: hsv_bytes_def)
  with bs show ?thesis by simp
qed

lemma HSV_from_binary_bytes:
  assumes "hsv_roundtrips X h"
  shows "HSV_from_binary X order (hsv_bytes X h order @ rest) = Inr (h, rest)"
proof -
  from assms obtain bs where
    bs: "\<And>sink rest. HSV_to_binary X h order sink = Inr (sink @ bs) \<and>
                      HSV_from_binary X order (bs @ rest) = Inr (h, rest)"
    unfolding hsv_roundtrips_def by blast
  from bs [of "[]"] have "hsv_bytes X h order = bs" by (simp add: hsv_bytes_def)
  with bs show ?thesis by simp
qed

lemma ZLayer_ok: "v \<in> set (ZLayer_values X) \<Longrightarrow> ZLayer X v = Inr v"
  by (simp add: ZLayer_def)

lemma Object_to_binary_ok:
  assumes "valid_Object X self"
  shows "Object_to_binary X self order sink = Inr (sink @ Object_bytes X self order)"
proof -
  from assms have h: "valid_Object_head X self"
    and g: "\<forall>g \<in> set (sorted_list_of_fset (groups self)). u16 g"
    and c: "int (fcard (groups self)) < 2 ^ 16"
    by (simp_all add: valid_Object_def)
  from h have "0 \<le> z_order self" "z_order self < 2 ^ 13" "0 \<le> z_layer self"
    "z_layer self < 2 ^ 3"
    by (simp_all add: valid_Object_head_def)
  note z = z_pack [OF this]
  note z1 = z(1) and z2 = z(2)
  from Object_flags_range [of self]
  have f: "0 \<le> Object_flags self" "Object_flags self < 2 ^ 8" by simp_all
  from h c z1 z2 show ?thesis
    by (simp add: Object_to_binary_def Object_bytes_def Object_head_bytes_def group_section_def
        valid_Object_head_def u16_def bindR_def write_u16_ok write_u8_ok write_f32_ok
        HSV_to_binary_ok write_u8_ok [OF f] write_each_u16_ok [OF g])
qed

lemma Object_from_binary_wire:
  assumes h: "valid_Object_head X self" and g: "\<forall>g \<in> set gs. u16 g"
    and c: "int (length gs) < 2 ^ 16"
  shows "Object_from_binary X cls order
           (Object_head_bytes X self order @ group_section (length gs) gs order @
            pack 2 (link_id self) order @ rest) =
         Inr ((as_class self cls)\<lparr>groups := fset_of_list gs\<rparr>, rest)"
proof -
  from h have "0 \<le> z_order self" "z_order self < 2 ^ 13" "0 \<le> z_layer self"
    "z_layer self < 2 ^ 3"
    by (simp_all add: valid_Object_head_def)
  note z = z_pack [OF this]
  note z1 = z(1) and z2 = z(2) and z3 = z(3) and z4 = z(4)
  from Object_flags_range [of self]
  have f: "0 \<le> Object_flags self" "Object_flags self < 2 ^ 8" by simp_all
  from h c z1 z2 show ?thesis
    by (simp add: Object_from_binary_def Object_head_bytes_def group_section_def
        valid_Object_head_def u16_def bindR_def read_u16_pack read_u8_pack read_f32_bytes
        HSV_from_binary_bytes read_u8_pack [OF f, unfolded One_nat_def] Object_flags_decode z3 z4 ZLayer_ok
        read_groups_ok [OF g] as_class_def Object.extend_def Object.truncate_def
        del: drop_bit_or drop_bit_and)
qed

lemma Object_from_binary_bytes:
  assumes "valid_Object X self"
  shows "Object_from_binary X cls order (Object_bytes X self order @ rest) =
         Inr (as_class self cls, rest)"
proof -
  from assms have h: "valid_Object_head X self"
    and g: "\<forall>g \<in> set (sorted_list_of_fset (groups self)). u16 g"
    and c: "int (length (sorted_list_of_fset (groups self))) < 2 ^ 16"
    by (simp_all add: valid_Object_def length_sorted_list_of_fset)
  from Object_from_binary_wire [OF h g c, of cls order rest] show ?thesis
    by (simp add: Object_bytes_def length_sorted_list_of_fset as_class_def
        Object.extend_def Object.truncate_def)
qed

lemma as_class_more: "as_class self (Object.more self) = self"
  by (simp add: as_class_def Object.extend_def Object.truncate_def)

lemma Object_roundtrip:
  assumes "valid_Object X self"
  shows "Object_to_binary X self order [] = Inr (Object_bytes X self order) \<and>
         Object_from_binary X (Object.more self) order (Object_bytes X self order @ rest) =
           Inr (self, rest)"
  using Object_to_binary_ok [OF assms, of order "[]"]
    Object_from_binary_bytes [OF assms, of "Object.more self" order rest]
  by (simp add: as_class_more)

lemma Coin_roundtrip:
  assumes v: "valid_Object X self" and c: "0 \<le> coin_id self" "coin_id self < 2 ^ 8"
  shows "Coin_to_binary X self order [] =
           Inr (Object_bytes X self order @ pack 1 (coin_id self) order) \<and>
         Coin_from_binary X (Coin.more self) order
           (Object_bytes X self order @ pack 1 (coin_id self) order @ rest) = Inr (self, rest)"
proof
  show "Coin_to_binary X self order [] =
           Inr (Object_bytes X self order @ pack 1 (coin_id self) order)"
    using c by (simp add: Coin_to_binary_def Object_to_binary_ok [OF v] bindR_def write_u8_def)
  have "(as_class self \<lparr>coin_id = 0, \<dots> = Coin.more self\<rparr>)\<lparr>coin_id := coin_id self\<rparr> = self"
    by (simp add: as_class_def Object.extend_def Object.truncate_def)
  then show "Coin_from_binary X (Coin.more self) order
           (Object_bytes X self order @ pack 1 (coin_id self) order @ rest) = Inr (self, rest)"
    using read_u8_pack [OF c, of order rest]
    by (simp add: Coin_from_binary_def Object_from_binary_bytes [OF v] bindR_def)
qed

lemma Text_roundtrip:
  assumes v: "valid_Object X self"
    and e: "str_encode enc (content self) = Inr data" and l: "int (length data) < 2 ^ 16"
    and d: "str_decode enc data = Inr (content self)"
  shows "Text_to_binary X self order enc [] =
           Inr (Object_bytes X self order @ pack 2 (int (length data)) order @ data) \<and>
         Text_from_binary X (Text.more self) order enc
           (Object_bytes X self order @ pack 2 (int (length data)) order @ data @ rest) =
           Inr (self, rest)"
proof
  show "Text_to_binary X self order enc [] =
           Inr (Object_bytes X self order @ pack 2 (int (length data)) order @ data)"
    using e l by (simp add: Text_to_binary_def Object_to_binary_ok [OF v] bindR_def write_u16_def)
  have "(as_class self \<lparr>content = EMPTY, \<dots> = Text.more self\<rparr>)\<lparr>content := content self\<rparr> = self"
    by (simp add: as_class_def Object.extend_def Object.truncate_def)
  then show "Text_from_binary X (Text.more self) order enc
           (Object_bytes X self order @ pack 2 (int (length data)) order @ data @ rest) =
           Inr (self, rest)"
    using read_u16_pack [of "int (length data)" order "data @ rest"] l d
    by (simp add: Text_from_binary_def Object_from_binary_bytes [OF v] bindR_def read_n_append)
qed

lemma smooth_flag:
  "0 \<le> set_bit_if b SMOOTH_BIT 0" "set_bit_if b SMOOTH_BIT 0 < 2 ^ 8"
  "(set_bit_if b SMOOTH_BIT 0 AND SMOOTH_BIT = SMOOTH_BIT) = b"
  by (simp_all add: set_bit_if_def SMOOTH_BIT_def)

lemma Teleport_roundtrip:
  assumes v: "valid_Object X self" and f: "f32_ok X (offset self)"
  shows "Teleport_to_binary X self order [] =
           Inr (Object_bytes X self order @ f32_bytes X (offset self) order @
                pack 1 (set_bit_if (smooth self) SMOOTH_BIT 0) order) \<and>
         Teleport_from_binary X (Teleport.more self) order
           (Object_bytes X self order @ f32_bytes X (offset self) order @
            pack 1 (set_bit_if (smooth self) SMOOTH_BIT 0) order @ rest) = Inr (self, rest)"
proof
  note s = smooth_flag [of "smooth self"]
  show "Teleport_to_binary X self order [] =
           Inr (Object_bytes X self order @ f32_bytes X (offset self) order @
                pack 1 (set_bit_if (smooth self) SMOOTH_BIT 0) order)"
    using write_u8_ok [OF s(1,2), of order]
    by (simp add: Teleport_to_binary_def Object_to_binary_ok [OF v] bindR_def
        write_f32_ok [OF f])
  have "(as_class self \<lparr>offset = float_zero X, smooth = False, \<dots> = Teleport.more self\<rparr>)
          \<lparr>offset := offset self, smooth := smooth self\<rparr> = self"
    by (simp add: as_class_def Object.extend_def Object.truncate_def)
  then show "Teleport_from_binary X (Teleport.more self) order
           (Object_bytes X self order @ f32_bytes X (offset self) order @
            pack 1 (set_bit_if (smooth self) SMOOTH_BIT 0) order @ rest) = Inr (self, rest)"
    using read_u8_pack [OF s(1,2), of order rest]
    by (simp add: Teleport_from_binary_def Object_from_binary_bytes [OF v] bindR_def
        read_f32_bytes [OF f] s(3))
qed

lemma trigger_flags:
  fixes a b c :: bool
  defines "w \<equiv> set_bit_if c MULTI_TRIGGER_BIT (set_bit_if b SPAWN_TRIGGERED_BIT
                 (set_bit_if a TOUCH_TRIGGERED_BIT 0))"
  shows "0 \<le> w" "w < 2 ^ 8"
    "(w AND TOUCH_TRIGGERED_BIT = TOUCH_TRIGGERED_BIT) = a"
    "(w AND SPAWN_TRIGGERED_BIT = SPAWN_TRIGGERED_BIT) = b"
    "(w AND MULTI_TRIGGER_BIT = MULTI_TRIGGER_BIT) = c"
  by (simp_all add: w_def set_bit_if_def TOUCH_TRIGGERED_BIT_def SPAWN_TRIGGERED_BIT_def
      MULTI_TRIGGER_BIT_def)

lemma Trigger_roundtrip:
  assumes v: "valid_Object X self"
  shows "Trigger_to_binary X self order [] =
           Inr (Object_bytes X self order @ pack 1 (Trigger_flags self) order) \<and>
         Trigger_from_binary X (Trigger.more self) order
           (Object_bytes X self order @ pack 1 (Trigger_flags self) order @ rest) =
           Inr (self, rest)"
proof
  note t = trigger_flags [of "multi_trigger self" "spawn_triggered self" "touch_triggered self",
      folded Trigger_flags_def]
  show "Trigger_to_binary X self order [] =
           Inr (Object_bytes X self order @ pack 1 (Trigger_flags self) order)"
    using write_u8_ok [OF t(1,2), of order]
    by (simp add: Trigger_to_binary_def Object_to_binary_ok [OF v] bindR_def Trigger_flags_def)
  have "(as_class self \<lparr>touch_triggered = False, spawn_triggered = False,
            multi_trigger = False, \<dots> = Trigger.more self\<rparr>)
          \<lparr>touch_triggered := touch_triggered self, spawn_triggered := spawn_triggered self,
           multi_trigger := multi_trigger self\<rparr> = self"
    by (simp add: as_class_def Object.extend_def Object.truncate_def)
  then show "Trigger_from_binary X (Trigger.more self) order
           (Object_bytes X self order @ pack 1 (Trigger_flags self) order @ rest) =
           Inr (self, rest)"
    using read_u8_pack [OF t(1,2), of order rest]
    by (simp add: Trigger_from_binary_def Object_from_binary_bytes [OF v] bindR_def t(3,4,5))
qed

lemma block_id_mask: "BLOCK_ID_MASK = mask 15"
  by (simp add: BLOCK_ID_MASK_def mask_eq_exp_minus_1)

lemma dynamic_bit: "DYNAMIC_BIT = 2 ^ 15"
  by (simp add: DYNAMIC_BIT_def)

lemma masked_range: "0 \<le> (v :: int) AND BLOCK_ID_MASK \<and> v AND BLOCK_ID_MASK < 2 ^ 15"
  using take_bit_int_less_exp [of 15 v] by (simp add: block_id_mask flip: take_bit_eq_mask)

lemma masked_id: "0 \<le> (b :: int) \<Longrightarrow> b < 2 ^ 15 \<Longrightarrow> b AND BLOCK_ID_MASK = b"
  by (simp add: block_id_mask take_bit_int_eq_self flip: take_bit_eq_mask)

lemma top_bit_word:
  fixes b :: int
  assumes "0 \<le> b" "b < 2 ^ 15"
  shows "0 \<le> set_bit_if d (2 ^ 15) b" "set_bit_if d (2 ^ 15) b < 2 ^ 16"
    "set_bit_if d (2 ^ 15) b AND mask 15 = b"
    "(set_bit_if d (2 ^ 15) b AND 2 ^ 15 = 2 ^ 15) = d"
proof -
  have nb: "\<not> bit b 15" using assms by (simp add: bit_iff_odd)
  show "0 \<le> set_bit_if d (2 ^ 15) b" using assms by (simp add: set_bit_if_def)
  show "set_bit_if d (2 ^ 15) b < 2 ^ 16"
    using assms OR_upper [of b 16 "2 ^ 15"] by (simp add: set_bit_if_def)
  have "take_bit 15 (b OR 2 ^ 15) = b"
    using assms by (simp add: take_bit_or take_bit_int_eq_self)
  then show "set_bit_if d (2 ^ 15) b AND mask 15 = b"
    using assms by (simp add: set_bit_if_def take_bit_int_eq_self flip: take_bit_eq_mask)
  show "(set_bit_if d (2 ^ 15) b AND 2 ^ 15 = 2 ^ 15) = d"
    unfolding and_exp_eq_iff_bit bit_set_bit_if using nb by simp
qed

lemma CollisionBlock_word_eq:
  "CollisionBlock_word self =
     (block_id self AND 0x7FFF) OR (if dynamic self then 0x8000 else 0)"
  by (simp add: CollisionBlock_word_def set_bit_if_def DYNAMIC_BIT_def BLOCK_ID_MASK_def)

lemma CollisionBlock_to_binary_ok:
  assumes v: "valid_Object X self"
  shows "CollisionBlock_to_binary X self order [] =
           Inr (Object_bytes X self order @ pack 2 (CollisionBlock_word self) order)"
proof -
  have r1: "0 \<le> block_id self AND BLOCK_ID_MASK"
    and r2: "block_id self AND BLOCK_ID_MASK < 2 ^ 15"
    using masked_range [of "block_id self"] by blast+
  note w = top_bit_word [OF r1 r2, of "dynamic self", folded dynamic_bit]
  from w(1,2) have "write_u16 (CollisionBlock_word self) order (Object_bytes X self order) =
      Inr (Object_bytes X self order @ pack 2 (CollisionBlock_word self) order)"
    by (intro write_u16_ok) (simp_all add: CollisionBlock_word_def)
  then show ?thesis
    by (simp add: CollisionBlock_to_binary_def Object_to_binary_ok [OF v] bindR_def
        CollisionBlock_word_def)
qed

lemma CollisionBlock_from_binary_word:
  assumes v: "valid_Object X self" and w: "0 \<le> w" "w < 2 ^ 16"
  shows "CollisionBlock_from_binary X (CollisionBlock.more self) order
           (Object_bytes X self order @ pack 2 w order @ rest) =
         Inr (self\<lparr>block_id := w AND 0x7FFF, dynamic := (w AND 0x8000 \<noteq> 0)\<rparr>, rest)"
proof -
  have "(as_class self \<lparr>block_id = 0, dynamic = False, \<dots> = CollisionBlock.more self\<rparr>)
          \<lparr>block_id := a, dynamic := d\<rparr> = self\<lparr>block_id := a, dynamic := d\<rparr>" for a d
    by (simp add: as_class_def Object.extend_def Object.truncate_def)
  moreover have "(w AND DYNAMIC_BIT = DYNAMIC_BIT) = (w AND 0x8000 \<noteq> 0)"
    using and_exp_eq_iff_bit [of w 15] and_exp_eq_0_iff_not_bit [of w 15]
    by (simp add: DYNAMIC_BIT_def)
  ultimately show ?thesis
    using read_u16_pack [OF w, of order rest]
    by (simp add: CollisionBlock_from_binary_def Object_from_binary_bytes [OF v] bindR_def
        BLOCK_ID_MASK_def)
qed

lemma CollisionBlock_roundtrip:
  assumes v: "valid_Object X self" and b: "0 \<le> block_id self" "block_id self < 2 ^ 15"
  shows "CollisionBlock_from_binary X (CollisionBlock.more self) order
           (Object_bytes X self order @ pack 2 (CollisionBlock_word self) order @ rest) =
         Inr (self, rest)"
proof -
  note w = top_bit_word [OF b, of "dynamic self"]
  have m: "block_id self AND BLOCK_ID_MASK = block_id self" using b by (rule masked_id)
  have cw: "CollisionBlock_word self = set_bit_if (dynamic self) (2 ^ 15) (block_id self)"
    by (simp add: CollisionBlock_word_def m dynamic_bit)
  have "(as_class self \<lparr>block_id = 0, dynamic = False, \<dots> = CollisionBlock.more self\<rparr>)
          \<lparr>block_id := block_id self, dynamic := dynamic self\<rparr> = self"
    by (simp add: as_class_def Object.extend_def Object.truncate_def)
  then show ?thesis
    using read_u16_pack [OF w(1,2), of order rest] w(3,4)
    by (simp add: CollisionBlock_from_binary_def Object_from_binary_bytes [OF v] bindR_def
        cw block_id_mask dynamic_bit)
qed

lemma sorted_ids:
  "sorted_wrt (<) (sorted_list_of_fset S) \<and> set (sorted_list_of_fset S) = fset S"
  by (simp add: sorted_list_of_fset.rep_eq strict_sorted_iff)

lemma hsv3_roundtrips: "hsv_roundtrips plain_externals h"
  unfolding hsv_roundtrips_def
proof
  fix order
  obtain a b c where h: "h = (a, b, c)" by (cases h)
  have "\<forall>sink rest. HSV_to_binary plain_externals h order sink = Inr (sink @ [a, b, c]) \<and>
          HSV_from_binary plain_externals order ([a, b, c] @ rest) = Inr (h, rest)"
    by (simp add: plain_externals_def hsv3_to_binary_def hsv3_from_binary_def h)
  then show "\<exists>bs. \<forall>sink rest. HSV_to_binary plain_externals h order sink = Inr (sink @ bs) \<and>
          HSV_from_binary plain_externals order (bs @ rest) = Inr (h, rest)"
    by blast
qed

lemma f32_ok_plain: "f32_ok plain_externals v"
  by (simp add: f32_ok_def plain_externals_def)

lemma valid_example_object: "valid_Object plain_externals example_object"
  by (simp add: valid_Object_def valid_Object_head_def example_object_def u16_def
      f32_ok_plain hsv3_roundtrips fcard_finsert_if fcard_fempty) (simp add: plain_externals_def)

lemma valid_Object_extend:
  "valid_Object X (Object.extend self m) = valid_Object X self"
  by (simp add: valid_Object_def valid_Object_head_def Object.extend_def)

text \<open>
  The round trip for the classes whose codec writes every field of the class (\<open>Object\<close>,
  \<open>Coin\<close>, \<open>Text\<close>, \<open>Teleport\<close>, \<open>CollisionBlock\<close> and \<open>Trigger\<close>): for every
  valid field assignment (integer fields within their width on the wire, the z-order within
  13 bits and the z-layer within the 3 bits above them, the block id within 15 bits, floats
  that have a binary32 pattern reading back as themselves, HSV values that their own codec
  reads back, a text that transcodes back to itself in fewer than 65536 bytes, fewer than
  65536 groups), encoding succeeds and decoding the bytes it produces, whatever follows
  them, yields the same value field by field, the groups being equal as sets. For an
  instance of any class, the bytes \<open>Object.to_binary\<close> writes are the fields before the
  groups, the count of the groups, their ids in strictly ascending order, and the link id.
\<close>

theorem written_fields_roundtrip:
  fixes obj :: "('f, 'h) Object" and coin :: "('f, 'h) Coin" and label :: "('f, 'h) Text"
    and teleport :: "('f, 'h) Teleport" and block :: "('f, 'h) CollisionBlock"
    and trigger :: "('f, 'h) Trigger" and self :: "('f, 'h, 'z) Object_scheme"
  shows
   "(valid_Object X obj \<longrightarrow>
       Object_to_binary X obj order [] = Inr (Object_bytes X obj order) \<and>
       Object_from_binary X () order (Object_bytes X obj order @ rest) = Inr (obj, rest)) \<and>
    (valid_Object X coin \<and> 0 \<le> coin_id coin \<and> coin_id coin < 2 ^ 8 \<longrightarrow>
       Coin_to_binary X coin order [] =
         Inr (Object_bytes X coin order @ pack 1 (coin_id coin) order) \<and>
       Coin_from_binary X () order
         (Object_bytes X coin order @ pack 1 (coin_id coin) order @ rest) = Inr (coin, rest)) \<and>
    (valid_Object X label \<and> str_encode enc (content label) = Inr data \<and>
     int (length data) < 2 ^ 16 \<and> str_decode enc data = Inr (content label) \<longrightarrow>
       Text_to_binary X label order enc [] =
         Inr (Object_bytes X label order @ pack 2 (int (length data)) order @ data) \<and>
       Text_from_binary X () order enc
         (Object_bytes X label order @ pack 2 (int (length data)) order @ data @ rest) =
         Inr (label, rest)) \<and>
    (valid_Object X teleport \<and> f32_ok X (offset teleport) \<longrightarrow>
       Teleport_to_binary X teleport order [] =
         Inr (Object_bytes X teleport order @ f32_bytes X (offset teleport) order @
              pack 1 (set_bit_if (smooth teleport) SMOOTH_BIT 0) order) \<and>
       Teleport_from_binary X () order
         (Object_bytes X teleport order @ f32_bytes X (offset teleport) order @
          pack 1 (set_bit_if (smooth teleport) SMOOTH_BIT 0) order @ rest) =
         Inr (teleport, rest)) \<and>
    (valid_Object X block \<and> 0 \<le> block_id block \<and> block_id block < 2 ^ 15 \<longrightarrow>
       CollisionBlock_to_binary X block order [] =
         Inr (Object_bytes X block order @ pack 2 (CollisionBlock_word block) order) \<and>
       CollisionBlock_from_binary X () order
         (Object_bytes X block order @ pack 2 (CollisionBlock_word block) order @ rest) =
         Inr (block, rest)) \<and>
    (valid_Object X trigger \<longrightarrow>
       Trigger_to_binary X trigger order [] =
         Inr (Object_bytes X trigger order @ pack 1 (Trigger_flags trigger) order) \<and>
       Trigger_from_binary X () order
         (Object_bytes X trigger order @ pack 1 (Trigger_flags trigger) order @ rest) =
         Inr (trigger, rest)) \<and>
    (valid_Object X self \<longrightarrow>
       Object_to_binary X self order [] = Inr (Object_bytes X self order)) \<and>
    sorted_wrt (<) (sorted_list_of_fset (groups self)) \<and>
    set (sorted_list_of_fset (groups self)) = fset (groups self) \<and>
    Object_bytes X self order =
      Object_head_bytes X self order @
      pack 2 (int (fcard (groups self))) order @
      concat (map (\<lambda>g. pack 2 g order) (sorted_list_of_fset (groups self))) @
      pack 2 (link_id self) order"
proof (intro conjI impI)
  show "sorted_wrt (<) (sorted_list_of_fset (groups self))"
    and "set (sorted_list_of_fset (groups self)) = fset (groups self)"
    using sorted_ids [of "groups self"] by blast+
  show "Object_bytes X self order =
      Object_head_bytes X self order @
      pack 2 (int (fcard (groups self))) order @
      concat (map (\<lambda>g. pack 2 g order) (sorted_list_of_fset (groups self))) @
      pack 2 (link_id self) order"
    by (simp add: Object_bytes_def group_section_def)
qed (use Object_roundtrip [of X obj order rest] Object_to_binary_ok [of X self order "[]"]
      Coin_roundtrip [of X coin order rest]
      Text_roundtrip [of X label enc data order rest] Teleport_roundtrip [of X teleport order rest]
      CollisionBlock_to_binary_ok [of X block order]
      CollisionBlock_roundtrip [of X block order rest] Trigger_roundtrip [of X trigger order rest]
    in simp_all)

theorem written_fields_roundtrip_witness:
  "Object_to_binary plain_externals example_object LITTLE [] =
     Inr [1, 0, 0, 0, 240, 65, 0, 0, 52, 66, 0, 0, 0, 0, 0, 0, 128, 63, 73, 17, 96, 0, 0, 2, 0,
          4, 0, 5, 0, 1, 2, 3, 4, 5, 6, 3, 0, 3, 0, 5, 0, 9, 0, 7, 0] \<and>
   Object_from_binary plain_externals () LITTLE
     (Object_bytes plain_externals example_object LITTLE @ [255]) =
     Inr (example_object, [255]) \<and>
   Coin_from_binary plain_externals () LITTLE
     (Object_bytes plain_externals example_coin LITTLE @ pack 1 2 LITTLE @ [255]) =
     Inr (example_coin, [255]) \<and>
   Text_from_binary plain_externals () LITTLE latin1
     (Object_bytes plain_externals example_text LITTLE @ pack 2 2 LITTLE @ [104, 105] @ [255]) =
     Inr (example_text, [255]) \<and>
   Teleport_from_binary plain_externals () LITTLE
     (Object_bytes plain_externals example_teleport LITTLE @
      f32_bytes plain_externals 0x40A00000 LITTLE @ pack 1 1 LITTLE @ [255]) =
     Inr (example_teleport, [255]) \<and>
   CollisionBlock_from_binary plain_externals () LITTLE
     (Object_bytes plain_externals example_collision_block LITTLE @
      pack 2 0x8007 LITTLE @ [255]) =
     Inr (example_collision_block, [255]) \<and>
   Trigger_from_binary plain_externals () LITTLE
     (Object_bytes plain_externals example_trigger LITTLE @ pack 1 5 LITTLE @ [255]) =
     Inr (example_trigger, [255])"
proof -
  note v = valid_example_object
  have vc: "valid_Object plain_externals example_coin"
    and vt: "valid_Object plain_externals example_text"
    and vp: "valid_Object plain_externals example_teleport"
    and vb: "valid_Object plain_externals example_collision_block"
    and vg: "valid_Object plain_externals example_trigger"
    by (simp_all add: example_coin_def example_text_def example_teleport_def
        example_collision_block_def example_trigger_def valid_Object_extend v)
  have c: "coin_id example_coin = 2"
    by (simp add: example_coin_def Object.extend_def)
  have t0: "content example_text = ''hi''"
    by (simp add: example_text_def Object.extend_def)
  have t1: "str_encode latin1 ''hi'' = Inr [104, 105]" by code_simp
  have t2: "str_decode latin1 [104, 105] = Inr ''hi''" by code_simp
  note t = t0 t1 t2
  have p: "offset example_teleport = 0x40A00000"
    "set_bit_if (smooth example_teleport) SMOOTH_BIT 0 = 1"
    by (simp_all add: example_teleport_def Object.extend_def set_bit_if_def SMOOTH_BIT_def)
  have b: "block_id example_collision_block = 7"
    "CollisionBlock_word example_collision_block = 0x8007"
    by (simp_all add: example_collision_block_def Object.extend_def CollisionBlock_word_def
        set_bit_if_def DYNAMIC_BIT_def BLOCK_ID_MASK_def)
  have g: "Trigger_flags example_trigger = 5"
    by (simp add: example_trigger_def Object.extend_def Trigger_flags_def set_bit_if_def
        TOUCH_TRIGGERED_BIT_def SPAWN_TRIGGERED_BIT_def MULTI_TRIGGER_BIT_def)
  have e: "Object_bytes plain_externals example_object LITTLE =
     [1, 0, 0, 0, 240, 65, 0, 0, 52, 66, 0, 0, 0, 0, 0, 0, 128, 63, 73, 17, 96, 0, 0, 2, 0,
          4, 0, 5, 0, 1, 2, 3, 4, 5, 6, 3, 0, 3, 0, 5, 0, 9, 0, 7, 0]"
    by code_simp
  note inst = written_fields_roundtrip [where X = plain_externals and order = LITTLE and rest = "[255]"
      and obj = example_object and coin = example_coin and label = example_text
      and enc = latin1 and data = "[104, 105]" and teleport = example_teleport
      and block = example_collision_block and trigger = example_trigger
      and self = example_object]
  from inst have 1: "Object_to_binary plain_externals example_object LITTLE [] =
             Inr (Object_bytes plain_externals example_object LITTLE)"
    "Object_from_binary plain_externals () LITTLE
       (Object_bytes plain_externals example_object LITTLE @ [255]) = Inr (example_object, [255])"
    using v by blast+
  from inst have 2: "Coin_from_binary plain_externals () LITTLE
     (Object_bytes plain_externals example_coin LITTLE @ pack 1 2 LITTLE @ [255]) =
     Inr (example_coin, [255])"
    using vc c by simp
  from inst have 3: "Text_from_binary plain_externals () LITTLE latin1
     (Object_bytes plain_externals example_text LITTLE @ pack 2 2 LITTLE @ [104, 105] @ [255]) =
     Inr (example_text, [255])"
    using vt t by simp
  from inst have 4: "Teleport_from_binary plain_externals () LITTLE
     (Object_bytes plain_externals example_teleport LITTLE @
      f32_bytes plain_externals 0x40A00000 LITTLE @ pack 1 1 LITTLE @ [255]) =
     Inr (example_teleport, [255])"
    using vp p f32_ok_plain [of "0x40A00000"] by simp
  from inst have 5: "CollisionBlock_from_binary plain_externals () LITTLE
     (Object_bytes plain_externals example_collision_block LITTLE @
      pack 2 0x8007 LITTLE @ [255]) =
     Inr (example_collision_block, [255])"
    using vb b by simp
  from inst have 6: "Trigger_from_binary plain_externals () LITTLE
     (Object_bytes plain_externals example_trigger LITTLE @ pack 1 5 LITTLE @ [255]) =
     Inr (example_trigger, [255])"
    using vg g by simp
  show ?thesis using 1 2 3 4 5 6 e by simp
qed

text \<open>
  Claim C1. Decoding the encoding of a valid object of any class should give the object
  back field by field. The codec of \<open>CollisionTrigger\<close> does not: it writes and reads the
  fields of \<open>Trigger\<close> and the two block words, and never the fields \<open>activate_group\<close>
  and \<open>target_group_id\<close> that the class takes from \<open>HasActivateGroup\<close> and
  \<open>HasTargetGroup\<close>. A \<open>CollisionTrigger\<close> with \<open>activate_group = True\<close> and
  \<open>target_group_id = 5\<close>, every field within its width, decodes from its own encoding
  with \<open>activate_group = False\<close> and \<open>target_group_id = 0\<close>, a different object.
\<close>

theorem collision_trigger_fields_not_encoded:
  "bindR (CollisionTrigger_to_binary plain_externals example_collision_trigger LITTLE [])
     (CollisionTrigger_from_binary plain_externals () LITTLE) =
     Inr (example_collision_trigger\<lparr>activate_group := False, target_group_id := 0\<rparr>, []) \<and>
   example_collision_trigger\<lparr>activate_group := False, target_group_id := 0\<rparr> \<noteq>
     example_collision_trigger"
proof
  show "bindR (CollisionTrigger_to_binary plain_externals example_collision_trigger LITTLE [])
     (CollisionTrigger_from_binary plain_externals () LITTLE) =
     Inr (example_collision_trigger\<lparr>activate_group := False, target_group_id := 0\<rparr>, [])"
    by code_simp
  have "activate_group example_collision_trigger"
    by (simp add: example_collision_trigger_def Object.extend_def)
  then show "example_collision_trigger\<lparr>activate_group := False, target_group_id := 0\<rparr> \<noteq>
     example_collision_trigger"
    by (metis CollisionTrigger.select_convs(1) CollisionTrigger.surjective
        CollisionTrigger.update_convs(1) CollisionTrigger.update_convs(2))
qed

text \<open>
  Claim C2. Encoding an \<open>AnimatedObject\<close> should append its randomize-start flag and its
  animation speed after the base fields, and decoding should read them back. The code does
  neither: the encoding of an \<open>AnimatedObject\<close> with \<open>randomize_start = True\<close> and
  \<open>animation_speed = 1.0\<close> is exactly the encoding of its base fields, and decoding it
  yields the defaults \<open>randomize_start = False\<close> and \<open>animation_speed = 0.0\<close>.
\<close>

theorem animated_object_fields_not_encoded:
  "randomize_start example_animated_object \<and>
   animation_speed example_animated_object = 0x3F800000 \<and>
   AnimatedObject_to_binary plain_externals example_animated_object LITTLE [] =
     Object_to_binary plain_externals example_object LITTLE [] \<and>
   bindR (AnimatedObject_to_binary plain_externals example_animated_object LITTLE [])
     (AnimatedObject_from_binary plain_externals () LITTLE) =
     Inr (example_animated_object\<lparr>randomize_start := False, animation_speed := 0\<rparr>, [])"
proof (intro conjI)
  show "randomize_start example_animated_object"
    and "animation_speed example_animated_object = 0x3F800000"
    by (simp_all add: example_animated_object_def Object.extend_def)
  show "AnimatedObject_to_binary plain_externals example_animated_object LITTLE [] =
     Object_to_binary plain_externals example_object LITTLE []"
    by code_simp
  show "bindR (AnimatedObject_to_binary plain_externals example_animated_object LITTLE [])
     (AnimatedObject_from_binary plain_externals () LITTLE) =
     Inr (example_animated_object\<lparr>randomize_start := False, animation_speed := 0\<rparr>, [])"
    by code_simp
qed

text \<open>
  Claim C5. After the base fields of a collision block, any 16-bit word \<open>v\<close> decodes to
  \<open>block_id = v & 0x7FFF\<close> and \<open>dynamic = ((v & 0x8000) != 0)\<close>; and for every
  \<open>block_id\<close> and \<open>dynamic\<close>, encoding writes, after the base fields, the word
  \<open>(block_id & 0x7FFF) | (0x8000 if dynamic else 0)\<close>.
\<close>

theorem collision_block_packed_word:
  fixes block :: "('f, 'h) CollisionBlock"
  assumes "valid_Object X block"
  shows "CollisionBlock_to_binary X block order [] =
           Inr (Object_bytes X block order @
                pack 2 ((block_id block AND 0x7FFF) OR (if dynamic block then 0x8000 else 0))
                  order) \<and>
         (\<forall>v. 0 \<le> v \<and> v < 2 ^ 16 \<longrightarrow>
            CollisionBlock_from_binary X () order (Object_bytes X block order @ pack 2 v order @ rest) =
            Inr (block\<lparr>block_id := v AND 0x7FFF, dynamic := (v AND 0x8000 \<noteq> 0)\<rparr>, rest))"
  using CollisionBlock_to_binary_ok [OF assms, of order]
    CollisionBlock_from_binary_word [OF assms, of _ order rest]
  by (simp add: CollisionBlock_word_eq)

lemma length_group_section:
  "length (group_section n ids order) = 2 + 2 * length ids"
  by (induction ids) (simp_all add: group_section_def length_pack)

lemma fcard_fset_of_list: "fcard (fset_of_list gs) = card (set gs)"
  by (simp add: fcard.rep_eq fset_of_list.rep_eq)

lemma Object_head_bytes_as_class:
  "Object_head_bytes X ((as_class self cls)\<lparr>groups := gs\<rparr>) order = Object_head_bytes X self order"
  by (simp add: Object_head_bytes_def as_class_def Object.extend_def Object.truncate_def
      Object_flags_def)

lemma valid_Object_head_as_class:
  "valid_Object_head X ((as_class self cls)\<lparr>groups := gs\<rparr>) = valid_Object_head X self"
  by (simp add: valid_Object_head_def as_class_def Object.extend_def Object.truncate_def)

text \<open>
  Claim C10. Decoding collapses duplicate group ids: a wire with the fields of a valid
  object, a group count \<open>n\<close> and \<open>n\<close> ids decodes to an object whose groups are the set
  of those ids, with at most \<open>n\<close> members and fewer exactly when an id is repeated.
  Encoding that object writes the cardinality of the set as the count, followed by the
  members in ascending order, so the re-encoding is shorter than the wire by two bytes for
  every repeated id; and decoding the re-encoding yields the same object again.
\<close>

theorem duplicate_groups_collapse:
  assumes h: "valid_Object_head X self" and g: "\<forall>g \<in> set ids. u16 g"
    and c: "int (length ids) < 2 ^ 16"
  shows "\<exists>obj. Object_from_binary X cls order
           (Object_head_bytes X self order @ group_section (length ids) ids order @
            pack 2 (link_id self) order @ rest) = Inr (obj, rest) \<and>
         groups obj = fset_of_list ids \<and>
         fcard (groups obj) \<le> length ids \<and>
         (fcard (groups obj) < length ids \<longleftrightarrow> \<not> distinct ids) \<and>
         Object_to_binary X obj order [] =
           Inr (Object_head_bytes X self order @
                group_section (fcard (groups obj)) (sorted_list_of_fset (groups obj)) order @
                pack 2 (link_id self) order) \<and>
         length (Object_bytes X obj order) + 2 * (length ids - fcard (groups obj)) =
           length (Object_head_bytes X self order @ group_section (length ids) ids order @
                   pack 2 (link_id self) order) \<and>
         Object_from_binary X cls order (Object_bytes X obj order @ rest) = Inr (obj, rest)"
proof -
  define obj where "obj = (as_class self cls)\<lparr>groups := fset_of_list ids\<rparr>"
  have dec: "Object_from_binary X cls order
           (Object_head_bytes X self order @ group_section (length ids) ids order @
            pack 2 (link_id self) order @ rest) = Inr (obj, rest)"
    unfolding obj_def by (rule Object_from_binary_wire [OF h g c])
  have gr: "groups obj = fset_of_list ids" by (simp add: obj_def)
  have le: "fcard (groups obj) \<le> length ids"
    by (simp add: gr fcard_fset_of_list card_length)
  have lt: "fcard (groups obj) < length ids \<longleftrightarrow> \<not> distinct ids"
  proof -
    have "(card (set ids) = length ids) = distinct ids"
      using card_distinct [of ids] distinct_card [of ids] by blast
    then show ?thesis
      using card_length [of ids] by (simp add: gr fcard_fset_of_list order_less_le)
  qed
  have hb: "Object_head_bytes X obj order = Object_head_bytes X self order"
    unfolding obj_def by (rule Object_head_bytes_as_class)
  have lk: "link_id obj = link_id self"
    by (simp add: obj_def as_class_def Object.extend_def Object.truncate_def)
  have v: "valid_Object X obj"
    using h g c le
    by (simp add: valid_Object_def obj_def valid_Object_head_as_class
        fset_of_list.rep_eq fcard_fset_of_list)
  have enc: "Object_to_binary X obj order [] =
           Inr (Object_head_bytes X self order @
                group_section (fcard (groups obj)) (sorted_list_of_fset (groups obj)) order @
                pack 2 (link_id self) order)"
    using Object_to_binary_ok [OF v, of order "[]"] by (simp add: Object_bytes_def hb lk)
  have len: "length (Object_bytes X obj order) + 2 * (length ids - fcard (groups obj)) =
           length (Object_head_bytes X self order @ group_section (length ids) ids order @
                   pack 2 (link_id self) order)"
    using le by (simp add: Object_bytes_def hb lk length_group_section length_pack
        length_sorted_list_of_fset)
  have again: "Object_from_binary X cls order (Object_bytes X obj order @ rest) = Inr (obj, rest)"
    using Object_from_binary_bytes [OF v, of cls order rest]
    by (simp add: obj_def as_class_def Object.extend_def Object.truncate_def)
  from dec gr le lt enc len again show ?thesis by blast
qed

theorem collision_block_packed_word_witness:
  "CollisionBlock_to_binary plain_externals example_collision_block LITTLE [] =
     Inr (Object_bytes plain_externals example_collision_block LITTLE @ pack 2 0x8007 LITTLE) \<and>
   CollisionBlock_from_binary plain_externals () LITTLE
     (Object_bytes plain_externals example_collision_block LITTLE @ pack 2 50000 LITTLE @ [255]) =
     Inr (example_collision_block\<lparr>block_id := 17232, dynamic := True\<rparr>, [255])"
proof -
  have v: "valid_Object plain_externals example_collision_block"
    by (simp add: example_collision_block_def valid_Object_extend valid_example_object)
  have b: "block_id example_collision_block = 7" "dynamic example_collision_block"
    by (simp_all add: example_collision_block_def Object.extend_def)
  have w: "(7 AND 0x7FFF) OR 0x8000 = (0x8007 :: int)" "50000 AND 0x7FFF = (17232 :: int)"
    "50000 AND 0x8000 \<noteq> (0 :: int)"
    by simp_all
  from collision_block_packed_word [OF v, of LITTLE "[255]"] b w show ?thesis by simp
qed

theorem duplicate_groups_collapse_witness:
  "Object_from_binary plain_externals () LITTLE
     (Object_head_bytes plain_externals example_object LITTLE @ group_section 3 [5, 5, 3] LITTLE @
      pack 2 7 LITTLE @ [255]) = Inr (example_object\<lparr>groups := {|3, 5|}\<rparr>, [255]) \<and>
   Object_to_binary plain_externals (example_object\<lparr>groups := {|3, 5|}\<rparr>) LITTLE [] =
     Inr (Object_head_bytes plain_externals example_object LITTLE @ group_section 2 [3, 5] LITTLE @
          pack 2 7 LITTLE) \<and>
   length (group_section 2 [3, 5] LITTLE) + 2 = length (group_section 3 [5, 5, 3] LITTLE)"
proof -
  have h: "valid_Object_head plain_externals example_object"
    using valid_example_object by (simp add: valid_Object_def)
  have g: "\<forall>g \<in> set [5, 5, 3]. u16 g" by (simp add: u16_def)
  have c: "int (length [5, 5, 3 :: int]) < 2 ^ 16" by simp
  have l: "link_id example_object = 7" by (simp add: example_object_def)
  have f: "fset_of_list [5, 5, 3 :: int] = {|3, 5|}" by auto
  have s: "sorted_list_of_fset {|3, 5 :: int|} = [3, 5]" by code_simp
  have k: "fcard {|3, 5 :: int|} = 2" by code_simp
  from duplicate_groups_collapse [OF h g c, of "()" LITTLE "[255]"] obtain obj where
    1: "Object_from_binary plain_externals () LITTLE
         (Object_head_bytes plain_externals example_object LITTLE @
          group_section (length [5, 5, 3 :: int]) [5, 5, 3] LITTLE @
          pack 2 (link_id example_object) LITTLE @ [255]) = Inr (obj, [255])" and
    2: "groups obj = fset_of_list [5, 5, 3]" and
    3: "Object_to_binary plain_externals obj LITTLE [] =
          Inr (Object_head_bytes plain_externals example_object LITTLE @
               group_section (fcard (groups obj)) (sorted_list_of_fset (groups obj)) LITTLE @
               pack 2 (link_id example_object) LITTLE)"
    by blast
  have w: "Object_from_binary plain_externals () LITTLE
         (Object_head_bytes plain_externals example_object LITTLE @
          group_section (length [5, 5, 3 :: int]) [5, 5, 3] LITTLE @
          pack 2 (link_id example_object) LITTLE @ [255]) =
        Inr ((as_class example_object ())\<lparr>groups := fset_of_list [5, 5, 3]\<rparr>, [255])"
    by (rule Object_from_binary_wire [OF h g c])
  from 1 [unfolded w]
  have o1: "obj = (as_class example_object ())\<lparr>groups := fset_of_list [5, 5, 3]\<rparr>" by simp
  have ac: "as_class example_object () = example_object"
    using as_class_more [of example_object] by simp
  have obj: "obj = example_object\<lparr>groups := {|3, 5|}\<rparr>"
    unfolding o1 ac f by (rule refl)
  have n: "length [5, 5, 3 :: int] = 3" by simp
  have g2: "groups (example_object\<lparr>groups := {|3, 5|}\<rparr>) = {|3, 5|}" by simp
  note dec = 1 [unfolded obj l n]
  note enc = 3 [unfolded obj g2 k s l]
  have len: "length (group_section 2 [3, 5] LITTLE) + 2 = length (group_section 3 [5, 5, 3] LITTLE)"
    by (simp add: length_group_section)
  from dec enc len show ?thesis by (intro conjI)
qed

end
